theory Spec2Isabelle
  imports Main "HOL-Library.Sublist" "HOL-Library.Word"
begin

section \<open>The voice-chat turn orchestrator (useChatService) and its three services\<close>

text \<open>
  The hook \<^verbatim>\<open>useChatService\<close> (chatService), \<^verbatim>\<open>DeepgramService\<close>, \<^verbatim>\<open>OpenAIService\<close> and
  \<^verbatim>\<open>ElevenLabsService\<close> are embedded as functions on one record holding the React state,
  the refs and the fields of the three service objects.

  The code is asynchronous.  Every \<^verbatim>\<open>await\<close> on something that the environment settles
  (the completion request, the connection handshake, the microphone permission, a timer, the
  end of a spoken utterance) splits a source function in two: the part before the await
  parks a continuation in the record, and a second function, run when the environment
  settles the await, takes the continuation up again.  JavaScript runs each such part to
  its end without interleaving, so each part is one function of the model and the
  interleavings of the program are the sequences of the events of type \<open>event\<close> below.

  React state setters with an updater function (\<^verbatim>\<open>setConversationHistory(prev => ...)\<close>) are
  applied in the order in which they were enqueued, so the model applies them at the call.
  A value of \<^verbatim>\<open>isMuted\<close> read inside a \<^verbatim>\<open>useCallback\<close> is the value of the render that created
  that instance of the callback; it is an explicit argument of every function that reads
  it, it is stored with the continuation across an await (\<open>capturedMuted\<close>), and it is
  stored with the callbacks that \<^verbatim>\<open>startListening\<close> registers with the
  \<^verbatim>\<open>DeepgramService\<close> (\<open>onUtteranceEndCallback\<close>).  The refs are read where they are used.

  A session lasts from the effects of the first render to the cleanup effect; the
  cleanup (\<^verbatim>\<open>DeepgramService.cleanup\<close>) is not an event of the model.  The callbacks of
  the caller are recorded as notifications and are taken not to raise.
\<close>

subsection \<open>Strings\<close>

text \<open>
  A JavaScript string is its sequence of UTF-16 code units.  Concatenation, the empty
  string and equality of strings are those of the lists.  A string literal of the source,
  all of them ASCII, is written \<open>js ''...''\<close>.
\<close>

type_synonym jsstring = "16 word list"

definition js :: "string \<Rightarrow> jsstring" where
  "js s = map of_char s"

text \<open>
  \<^verbatim>\<open>String.prototype.trim\<close> removes the leading and trailing white space and line
  terminators of ECMAScript: TAB, VT, FF, the zero width no-break space U+FEFF, the
  code points of the Unicode category Space_Separator (U+0020, U+00A0, U+1680,
  U+2000 to U+200A, U+202F, U+205F, U+3000), and LF, CR, U+2028, U+2029.  All of them
  are single code units.
\<close>

definition isWhiteSpace :: "16 word \<Rightarrow> bool" where
  "isWhiteSpace u =
     (u = 0x0009 \<or> u = 0x000B \<or> u = 0x000C \<or> u = 0xFEFF
      \<or> u = 0x0020 \<or> u = 0x00A0 \<or> u = 0x1680 \<or> (0x2000 \<le> u \<and> u \<le> 0x200A)
      \<or> u = 0x202F \<or> u = 0x205F \<or> u = 0x3000
      \<or> u = 0x000A \<or> u = 0x000D \<or> u = 0x2028 \<or> u = 0x2029)"

definition trim :: "jsstring \<Rightarrow> jsstring" where
  "trim s = rev (dropWhile isWhiteSpace (rev (dropWhile isWhiteSpace s)))"

text \<open>
  \<^verbatim>\<open>String.prototype.toLowerCase\<close> is the lower-casing of the Unicode standard.  On a
  string of ASCII code units it replaces the letters A to Z by a to z and nothing else.
  What it makes of a string with other code units is decided by the Unicode tables of
  the platform, which are not part of the program: it is the argument \<open>lowerNonAscii\<close>,
  and every property below holds whatever this function is.
\<close>

definition isAscii :: "16 word \<Rightarrow> bool" where
  "isAscii u = (u < 0x0080)"

definition toLowerAscii :: "16 word \<Rightarrow> 16 word" where
  "toLowerAscii u = (if 0x0041 \<le> u \<and> u \<le> 0x005A then u + 0x0020 else u)"

definition toLowerCase :: "(jsstring \<Rightarrow> jsstring) \<Rightarrow> jsstring \<Rightarrow> jsstring" where
  "toLowerCase lowerNonAscii s =
     (if list_all isAscii s then map toLowerAscii s else lowerNonAscii s)"

subsection \<open>Data\<close>

record msg =
  role :: jsstring
  content :: jsstring

datatype recorder_state = inactive | recording | paused

datatype notification =
    OnTranscript jsstring
  | OnResponse jsstring
  | OnUserMessage jsstring
  | OnSpeakingComplete

text \<open>
  The two closures that the hook passes to \<^verbatim>\<open>elevenlabs.speak\<close> as \<^verbatim>\<open>onComplete\<close>: the one
  of \<^verbatim>\<open>processUserMessage\<close> and the one of \<^verbatim>\<open>sendInitialGreeting\<close> (which carries the captured
  mute flag of the \<^verbatim>\<open>startListening\<close> instance that it will call).
\<close>

datatype on_complete = TurnComplete | GreetingComplete bool

text \<open>
  An utterance handed to \<^verbatim>\<open>window.speechSynthesis.speak\<close> whose \<^verbatim>\<open>onend\<close>/\<^verbatim>\<open>onerror\<close> handler
  has not run yet.  \<^verbatim>\<open>speechSynthesis.cancel()\<close> stops the playback at once and the platform
  then delivers one \<^verbatim>\<open>error\<close> event to each utterance it removed; \<open>cancelled\<close> marks an
  utterance that has been silenced and only waits for that event.
\<close>

record utt =
  uttText :: jsstring
  uttOnComplete :: on_complete
  cancelled :: bool

text \<open>What the platform does when \<^verbatim>\<open>ElevenLabsService.speak\<close> runs.\<close>

datatype speech_env =
    SpeechUnsupported   \<comment> \<open>\<^verbatim>\<open>'speechSynthesis' in window\<close> is false\<close>
  | SpeechThrows        \<comment> \<open>a platform call inside the \<^verbatim>\<open>try\<close> raises before the utterance is queued\<close>
  | SpeechWorks

text \<open>What the chat-completions request of \<^verbatim>\<open>OpenAIService.getResponse\<close> yields: a rejection,
  or a completion whose \<^verbatim>\<open>choices\<close> each carry a \<^verbatim>\<open>message.content\<close> that may be null.\<close>

datatype api_outcome = ApiThrows | ApiCompletion "jsstring option list"

datatype error = ServiceError

text \<open>A call of \<^verbatim>\<open>processUserMessage\<close> suspended at \<^verbatim>\<open>await openai.getResponse(updatedHistory)\<close>.\<close>

record pending_turn =
  capturedMuted :: bool
  updatedHistory :: "msg list"

text \<open>Who awaits the promise of \<^verbatim>\<open>initializeIfNeeded\<close>: the mount effect, or a call of
  \<^verbatim>\<open>startListening\<close> (with the mute flag captured by its \<^verbatim>\<open>processUserMessage\<close>).\<close>

datatype init_caller = MountEffect | StartListeningCaller bool

record session =
  \<comment> \<open>the argument of the hook\<close>
  userName :: jsstring
  userGender :: jsstring
  onUserMessage :: bool   \<comment> \<open>whether the optional callback is supplied\<close>
  \<comment> \<open>React state\<close>
  isConnected :: bool
  error :: "jsstring option"
  conversationHistory :: "msg list"
  isMuted :: bool
  \<comment> \<open>refs\<close>
  processingRef :: bool
  lastProcessedMessageRef :: jsstring
  isInitializedRef :: bool
  initializationPromiseRef :: bool   \<comment> \<open>a promise is cached\<close>
  isListeningRef :: bool
  \<comment> \<open>DeepgramService\<close>
  connection :: bool                 \<comment> \<open>open, with the UtteranceEnd listener registered\<close>
  mediaRecorder :: "recorder_state option"
  currentTranscript :: jsstring
  onUtteranceEndCallback :: "bool option"  \<comment> \<open>the registered callbacks, with their captured mute flag\<close>
  stream :: bool
  transcriptListeners :: nat         \<comment> \<open>Transcript listeners added by \<^verbatim>\<open>startListening\<close>\<close>
  \<comment> \<open>the speech platform\<close>
  speechEnv :: speech_env
  speechQueue :: "utt list"
  \<comment> \<open>suspended continuations\<close>
  awaitingCompletion :: "pending_turn list"
  initWaiters :: "init_caller list"
  mediaWaiters :: "bool list"
  stopWaiters :: nat
  greetingWaiters :: "bool list"
  autoStartTimers :: "bool list"
  \<comment> \<open>observations\<close>
  initAttempts :: nat                \<comment> \<open>calls of \<^verbatim>\<open>deepgram.initialize()\<close>\<close>
  initObserved :: "(init_caller \<times> bool) list"  \<comment> \<open>outcome seen by each awaiting caller\<close>
  notifications :: "notification list"     \<comment> \<open>calls of the callbacks, in order\<close>

subsection \<open>OpenAIService\<close>

text \<open>\<^verbatim>\<open>return completion.choices[0]?.message?.content || ''\<close>; a rejection is rethrown.\<close>

fun getResponse :: "api_outcome \<Rightarrow> msg list \<Rightarrow> error + jsstring" where
  "getResponse ApiThrows messages = Inl ServiceError"
| "getResponse (ApiCompletion []) messages = Inr []"
| "getResponse (ApiCompletion (None # cs)) messages = Inr []"
| "getResponse (ApiCompletion (Some t # cs)) messages = Inr t"

subsection \<open>DeepgramService\<close>

definition pauseListening :: "session \<Rightarrow> session" where
  "pauseListening s =
     (if mediaRecorder s = Some recording then s\<lparr>mediaRecorder := Some paused\<rparr> else s)"

definition resumeListening :: "session \<Rightarrow> session" where
  "resumeListening s =
     (if mediaRecorder s = Some paused then s\<lparr>mediaRecorder := Some recording\<rparr> else s)"

text \<open>\<^verbatim>\<open>DeepgramService.startListening\<close> after the stream is there: nothing more when the
  recorder is recording, otherwise a new recorder with one more Transcript listener, started.\<close>

definition deepgramStartRecorder :: "session \<Rightarrow> session" where
  "deepgramStartRecorder s =
     (if mediaRecorder s = Some recording then s
      else s\<lparr>mediaRecorder := Some recording, transcriptListeners := Suc (transcriptListeners s)\<rparr>)"

text \<open>\<^verbatim>\<open>DeepgramService.stopListening\<close> up to its 500 ms wait.\<close>

definition deepgramStopRecorder :: "session \<Rightarrow> session" where
  "deepgramStopRecorder s =
     (if mediaRecorder s \<noteq> None \<and> mediaRecorder s \<noteq> Some inactive
      then s\<lparr>mediaRecorder := Some inactive\<rparr> else s)"

subsection \<open>ElevenLabsService\<close>

definition cancelSpeech :: "utt list \<Rightarrow> utt list" where
  "cancelSpeech q = map (\<lambda>u. u\<lparr>cancelled := True\<rparr>) q"

text \<open>The two \<^verbatim>\<open>onComplete\<close> closures of the hook.\<close>

fun onComplete :: "on_complete \<Rightarrow> session \<Rightarrow> session" where
  "onComplete TurnComplete s =
     s\<lparr>notifications := notifications s @ [OnSpeakingComplete], processingRef := False\<rparr>"
| "onComplete (GreetingComplete c) s =
     s\<lparr>notifications := notifications s @ [OnSpeakingComplete],
       autoStartTimers := autoStartTimers s @ [c]\<rparr>"

text \<open>\<^verbatim>\<open>ElevenLabsService.speak\<close>.  The voices are taken to be loaded, so that \<^verbatim>\<open>getVoices\<close>
  resolves without yielding to other events.\<close>

definition speak :: "jsstring \<Rightarrow> on_complete \<Rightarrow> session \<Rightarrow> session" where
  "speak text h s =
     (case speechEnv s of
        SpeechUnsupported \<Rightarrow> onComplete h s
      | SpeechThrows \<Rightarrow> onComplete h (s\<lparr>speechQueue := cancelSpeech (speechQueue s)\<rparr>)
      | SpeechWorks \<Rightarrow>
          s\<lparr>speechQueue := cancelSpeech (speechQueue s)
                             @ [\<lparr>uttText = text, uttOnComplete = h, cancelled = False\<rparr>]\<rparr>)"

text \<open>\<^verbatim>\<open>ElevenLabsService.cleanup\<close>.\<close>

definition elevenlabsCleanup :: "session \<Rightarrow> session" where
  "elevenlabsCleanup s =
     (if speechEnv s \<noteq> SpeechUnsupported then s\<lparr>speechQueue := cancelSpeech (speechQueue s)\<rparr>
      else s)"

text \<open>The \<^verbatim>\<open>onend\<close> or \<^verbatim>\<open>onerror\<close> handler of the oldest utterance runs.\<close>

definition utteranceSettles :: "session \<Rightarrow> session" where
  "utteranceSettles s =
     (case speechQueue s of
        [] \<Rightarrow> s
      | u # q \<Rightarrow> onComplete (uttOnComplete u) (s\<lparr>speechQueue := q\<rparr>))"

subsection \<open>useChatService\<close>

definition systemPrompt :: "jsstring \<Rightarrow> jsstring \<Rightarrow> jsstring" where
  \<open>systemPrompt name gender =
     (js ''You are a friendly AI companion who speaks naturally and casually, just like a real friend. The user's name is '')
     @ name @ (js '' and they are '') @ gender @ (js ''.\<newline>\<newline>'')
     @ (js ''Your personality traits:\<newline>'')
     @ (js ''- Warm, enthusiastic, and genuinely interested in conversations\<newline>'')
     @ (js ''- Use casual language and contractions (like "I'm", "you're", "that's")\<newline>'')
     @ (js ''- Show empathy and emotional intelligence\<newline>'')
     @ (js ''- Occasionally use friendly expressions like "Oh!", "Wow!", "That's awesome!", "I see!"\<newline>'')
     @ (js ''- Keep responses concise and conversational (2-3 sentences usually)\<newline>'')
     @ (js ''- Ask follow-up questions to keep the conversation flowing\<newline>'')
     @ (js ''- Be supportive and encouraging\<newline>'')
     @ (js ''- Use natural speech patterns with occasional filler words when appropriate\<newline>'')
     @ (js ''- React naturally to what the user says\<newline>'')
     @ (js ''- Remember context from earlier in the conversation\<newline>'')
     @ (js ''- Always address the user by their name: '') @ name @ (js ''\<newline>\<newline>'')
     @ (js ''Speak as if you're chatting with a close friend over coffee. Be genuine, relatable, and fun to talk to!'')\<close>

text \<open>The initial values of \<^verbatim>\<open>useState\<close> and \<^verbatim>\<open>useRef\<close> and of the fields of the services.\<close>

definition newSession :: "jsstring \<Rightarrow> jsstring \<Rightarrow> bool \<Rightarrow> speech_env \<Rightarrow> session" where
  "newSession name gender hasOnUserMessage env =
     \<lparr>userName = name, userGender = gender, onUserMessage = hasOnUserMessage,
      isConnected = False, error = None, conversationHistory = [], isMuted = False,
      processingRef = False, lastProcessedMessageRef = [], isInitializedRef = False,
      initializationPromiseRef = False, isListeningRef = False,
      connection = False, mediaRecorder = None, currentTranscript = [],
      onUtteranceEndCallback = None, stream = False, transcriptListeners = 0,
      speechEnv = env, speechQueue = [],
      awaitingCompletion = [], initWaiters = [], mediaWaiters = [], stopWaiters = 0,
      greetingWaiters = [], autoStartTimers = [],
      initAttempts = 0, initObserved = [], notifications = []\<rparr>"

text \<open>The first effect: the history becomes the one system message.\<close>

definition historyEffect :: "session \<Rightarrow> session" where
  "historyEffect s =
     s\<lparr>conversationHistory :=
         [\<lparr>role = (js ''system''), content = systemPrompt (userName s) (userGender s)\<rparr>]\<rparr>"

text \<open>\<^verbatim>\<open>DeepgramService.startListening\<close>, called from \<^verbatim>\<open>startListening\<close>: it registers the
  callbacks and, with no stream yet, waits for \<^verbatim>\<open>getUserMedia\<close>; otherwise it starts the
  recorder and the caller sets \<^verbatim>\<open>isListeningRef\<close>.\<close>

definition deepgramStartListening :: "bool \<Rightarrow> session \<Rightarrow> session" where
  "deepgramStartListening c s =
     (let s1 = s\<lparr>currentTranscript := [], onUtteranceEndCallback := Some c\<rparr>
      in if \<not> stream s1 then s1\<lparr>mediaWaiters := mediaWaiters s1 @ [c]\<rparr>
         else (deepgramStartRecorder s1)\<lparr>isListeningRef := True\<rparr>)"

text \<open>\<^verbatim>\<open>startListening\<close> from the return of \<^verbatim>\<open>await initializeIfNeeded()\<close> on:
  the catch branch on a failure, the early return when already listening.\<close>

definition startListeningAfterInit :: "bool \<Rightarrow> bool \<Rightarrow> session \<Rightarrow> session" where
  "startListeningAfterInit ok c s =
     (if \<not> ok then s\<lparr>error := Some (js ''Failed to start listening'')\<rparr>
      else if isListeningRef s then s
      else deepgramStartListening c s)"

text \<open>A caller of \<^verbatim>\<open>initializeIfNeeded\<close> goes on after its await, having seen the outcome.\<close>

fun initResumes :: "bool \<Rightarrow> init_caller \<Rightarrow> session \<Rightarrow> session" where
  "initResumes ok MountEffect s = s\<lparr>initObserved := initObserved s @ [(MountEffect, ok)]\<rparr>"
| "initResumes ok (StartListeningCaller c) s =
     startListeningAfterInit ok c
       (s\<lparr>initObserved := initObserved s @ [(StartListeningCaller c, ok)]\<rparr>)"

definition initializeIfNeeded :: "init_caller \<Rightarrow> session \<Rightarrow> session" where
  "initializeIfNeeded w s =
     (if isInitializedRef s then initResumes True w s
      else
        (let s1 = (if \<not> initializationPromiseRef s
                   then s\<lparr>initializationPromiseRef := True, initAttempts := Suc (initAttempts s)\<rparr>
                   else s)
         in s1\<lparr>initWaiters := initWaiters s1 @ [w]\<rparr>))"

text \<open>The promise of \<^verbatim>\<open>deepgram.initialize()\<close> settles, which it can do only once and
  only when an attempt is under way: the \<^verbatim>\<open>then\<close> or the \<^verbatim>\<open>catch\<close> handler runs, then every
  caller awaiting the cached promise.\<close>

definition connectionSettles :: "bool \<Rightarrow> session \<Rightarrow> session" where
  "connectionSettles ok s =
     (if isInitializedRef s then s
      else if \<not> initializationPromiseRef s then s
      else
        (let s1 = (if ok then s\<lparr>connection := True, isInitializedRef := True, isConnected := True\<rparr>
                   else s\<lparr>error := Some (js ''Failed to connect to speech services''),
                          initializationPromiseRef := False\<rparr>)
         in fold (initResumes ok) (initWaiters s1) (s1\<lparr>initWaiters := []\<rparr>)))"

definition startListening :: "bool \<Rightarrow> session \<Rightarrow> session" where
  "startListening c s = initializeIfNeeded (StartListeningCaller c) (s\<lparr>error := None\<rparr>)"

text \<open>\<^verbatim>\<open>getUserMedia\<close> settles for the oldest waiting \<^verbatim>\<open>DeepgramService.startListening\<close>.\<close>

definition userMediaSettles :: "bool \<Rightarrow> session \<Rightarrow> session" where
  "userMediaSettles granted s =
     (case mediaWaiters s of
        [] \<Rightarrow> s
      | c # cs \<Rightarrow>
          (if granted
           then (deepgramStartRecorder (s\<lparr>mediaWaiters := cs, stream := True\<rparr>))\<lparr>isListeningRef := True\<rparr>
           else s\<lparr>mediaWaiters := cs, error := Some (js ''Failed to start listening'')\<rparr>))"

definition stopListening :: "session \<Rightarrow> session" where
  "stopListening s =
     (if \<not> isListeningRef s then s
      else (deepgramStopRecorder s)\<lparr>stopWaiters := Suc (stopWaiters s)\<rparr>)"

text \<open>The 500 ms of \<^verbatim>\<open>DeepgramService.stopListening\<close> are over.\<close>

definition stopDelayElapsed :: "session \<Rightarrow> session" where
  "stopDelayElapsed s =
     (if stopWaiters s = 0 then s
      else s\<lparr>stopWaiters := stopWaiters s - 1, currentTranscript := [], isListeningRef := False\<rparr>)"

definition muteAudio :: "session \<Rightarrow> session" where
  "muteAudio s = elevenlabsCleanup (s\<lparr>isMuted := True\<rparr>)"

definition unmuteAudio :: "session \<Rightarrow> session" where
  "unmuteAudio s = s\<lparr>isMuted := False\<rparr>"

text \<open>The updater of the second \<^verbatim>\<open>setConversationHistory\<close> in \<^verbatim>\<open>processUserMessage\<close>.\<close>

definition appendAssistant :: "jsstring \<Rightarrow> msg list \<Rightarrow> msg list" where
  "appendAssistant aiResponse prev =
     (if prev \<noteq> [] \<and> role (last prev) = (js ''assistant'') \<and> content (last prev) = aiResponse
      then prev
      else prev @ [\<lparr>role = (js ''assistant''), content = aiResponse\<rparr>])"

text \<open>\<^verbatim>\<open>processUserMessage\<close> up to \<^verbatim>\<open>await openai.getResponse(updatedHistory)\<close>.
  The argument \<open>lc\<close> is the platform's lower-casing of strings with non-ASCII code units
  (see \<open>toLowerCase\<close>), \<open>c\<close> the captured mute flag.\<close>

definition processUserMessage ::
  "(jsstring \<Rightarrow> jsstring) \<Rightarrow> bool \<Rightarrow> jsstring \<Rightarrow> session \<Rightarrow> session" where
  "processUserMessage lc c message s =
     (if message = [] \<or> trim message = [] then s
      else if processingRef s then s
      else if lastProcessedMessageRef s = toLowerCase lc (trim message) then s
      else
        s\<lparr>processingRef := True,
          lastProcessedMessageRef := toLowerCase lc (trim message),
          notifications :=
            notifications s @ (if onUserMessage s then [OnUserMessage (trim message)] else []),
          conversationHistory :=
            conversationHistory s @ [\<lparr>role = (js ''user''), content = trim message\<rparr>],
          awaitingCompletion :=
            awaitingCompletion s
            @ [\<lparr>capturedMuted = c,
                updatedHistory =
                  conversationHistory s @ [\<lparr>role = (js ''user''), content = trim message\<rparr>]\<rparr>]\<rparr>)"

text \<open>The body of the \<^verbatim>\<open>try\<close> after the await, and the \<^verbatim>\<open>catch\<close>.\<close>

definition afterCompletion :: "bool \<Rightarrow> error + jsstring \<Rightarrow> session \<Rightarrow> session" where
  "afterCompletion c res s =
     (case res of
        Inl e \<Rightarrow> s\<lparr>error := Some (js ''Failed to get AI response''), processingRef := False\<rparr>
      | Inr aiResponse \<Rightarrow>
          (if aiResponse \<noteq> []
           then
             (let s1 = s\<lparr>conversationHistory := appendAssistant aiResponse (conversationHistory s),
                         notifications := notifications s @ [OnResponse aiResponse]\<rparr>
              in if \<not> c then speak aiResponse TurnComplete s1 else onComplete TurnComplete s1)
           else s\<lparr>processingRef := False\<rparr>))"

text \<open>The \<^verbatim>\<open>finally\<close> of \<^verbatim>\<open>processUserMessage\<close>.\<close>

definition finallyResume :: "session \<Rightarrow> session" where
  "finallyResume s = (if isListeningRef s then resumeListening s else s)"

text \<open>The completion request of the oldest suspended \<^verbatim>\<open>processUserMessage\<close> settles.\<close>

definition completionSettles :: "api_outcome \<Rightarrow> session \<Rightarrow> session" where
  "completionSettles api s =
     (case awaitingCompletion s of
        [] \<Rightarrow> s
      | p # ps \<Rightarrow>
          finallyResume
            (afterCompletion (capturedMuted p) (getResponse api (updatedHistory p))
               (s\<lparr>awaitingCompletion := ps\<rparr>)))"

text \<open>\<^verbatim>\<open>sendInitialGreeting\<close>: its 100 ms wait, then the rest.\<close>

definition sendInitialGreeting :: "bool \<Rightarrow> session \<Rightarrow> session" where
  "sendInitialGreeting c s = s\<lparr>greetingWaiters := greetingWaiters s @ [c]\<rparr>"

definition greetingMessage :: "jsstring \<Rightarrow> jsstring" where
  "greetingMessage name = (js ''Hi '') @ name @ (js '', how are you?'')"

definition greetingHistory :: "jsstring \<Rightarrow> msg list \<Rightarrow> msg list" where
  \<open>greetingHistory name prevHistory =
     (if length prevHistory > 0 then prevHistory
      else [\<lparr>role = (js ''system''),
             content = (js ''You are a friendly AI companion. The user's name is '') @ name @ (js ''.'')\<rparr>])
     @ [\<lparr>role = (js ''assistant''), content = greetingMessage name\<rparr>]\<close>

definition greetingDelayElapsed :: "session \<Rightarrow> session" where
  "greetingDelayElapsed s =
     (case greetingWaiters s of
        [] \<Rightarrow> s
      | c # cs \<Rightarrow>
          (let s1 = s\<lparr>greetingWaiters := cs,
                      conversationHistory := greetingHistory (userName s) (conversationHistory s),
                      notifications := notifications s @ [OnResponse (greetingMessage (userName s))]\<rparr>
           in if \<not> c then speak (greetingMessage (userName s)) (GreetingComplete c) s1
              else onComplete (GreetingComplete c) s1))"

text \<open>The 500 ms timer of \<^verbatim>\<open>autoStart\<close> fires.\<close>

definition autoStartDelayElapsed :: "session \<Rightarrow> session" where
  "autoStartDelayElapsed s =
     (case autoStartTimers s of [] \<Rightarrow> s | c # cs \<Rightarrow> startListening c (s\<lparr>autoStartTimers := cs\<rparr>))"

text \<open>One Transcript listener of \<^verbatim>\<open>DeepgramService.startListening\<close> on a Transcript event.\<close>

definition transcriptListener :: "jsstring \<Rightarrow> bool \<Rightarrow> session \<Rightarrow> session" where
  "transcriptListener transcript is_final s =
     (if transcript \<noteq> [] \<and> trim transcript \<noteq> [] \<and> is_final
      then
        (let t = currentTranscript s @ (if currentTranscript s \<noteq> [] then (js '' '') else []) @ transcript
         in s\<lparr>currentTranscript := t,
              notifications :=
                notifications s @ (if onUtteranceEndCallback s \<noteq> None then [OnTranscript t] else [])\<rparr>)
      else s)"

definition transcriptEvent :: "jsstring \<Rightarrow> bool \<Rightarrow> session \<Rightarrow> session" where
  "transcriptEvent transcript is_final s =
     ((transcriptListener transcript is_final) ^^ (transcriptListeners s)) s"

text \<open>The UtteranceEnd listener of \<^verbatim>\<open>DeepgramService.initialize\<close>, which hands the finalized
  transcript to the callback that \<^verbatim>\<open>startListening\<close> registered, and that to
  \<^verbatim>\<open>processUserMessage\<close>.\<close>

definition utteranceEndEvent :: "(jsstring \<Rightarrow> jsstring) \<Rightarrow> session \<Rightarrow> session" where
  "utteranceEndEvent lc s =
     (if connection s \<and> currentTranscript s \<noteq> [] \<and> trim (currentTranscript s) \<noteq> []
      then
        (case onUtteranceEndCallback s of
           None \<Rightarrow> s
         | Some c \<Rightarrow>
             (let finalTranscript = trim (currentTranscript s)
              in if finalTranscript \<noteq> [] \<and> trim finalTranscript \<noteq> []
                 then processUserMessage lc c finalTranscript (s\<lparr>currentTranscript := []\<rparr>)
                 else s\<lparr>currentTranscript := []\<rparr>))
      else s)"

subsection \<open>The session as a transition system\<close>

text \<open>The events of a session.  The functions \<open>step\<close> and \<open>run\<close> pass the platform's
  lower-casing \<open>lc\<close> on to \<^verbatim>\<open>processUserMessage\<close>.\<close>

datatype event =
    ProcessUserMessage bool jsstring
  | CompletionSettles api_outcome
  | UtteranceSettles
  | MuteAudio
  | UnmuteAudio
  | ConnectionSettles bool
  | StartListening bool
  | UserMediaSettles bool
  | StopListening
  | StopDelayElapsed
  | SendInitialGreeting bool
  | GreetingDelayElapsed
  | AutoStartDelayElapsed
  | TranscriptEvent jsstring bool
  | UtteranceEndEvent

fun step :: "(jsstring \<Rightarrow> jsstring) \<Rightarrow> event \<Rightarrow> session \<Rightarrow> session" where
  "step lc (ProcessUserMessage c m) s = processUserMessage lc c m s"
| "step lc (CompletionSettles api) s = completionSettles api s"
| "step lc UtteranceSettles s = utteranceSettles s"
| "step lc MuteAudio s = muteAudio s"
| "step lc UnmuteAudio s = unmuteAudio s"
| "step lc (ConnectionSettles ok) s = connectionSettles ok s"
| "step lc (StartListening c) s = startListening c s"
| "step lc (UserMediaSettles granted) s = userMediaSettles granted s"
| "step lc StopListening s = stopListening s"
| "step lc StopDelayElapsed s = stopDelayElapsed s"
| "step lc (SendInitialGreeting c) s = sendInitialGreeting c s"
| "step lc GreetingDelayElapsed s = greetingDelayElapsed s"
| "step lc AutoStartDelayElapsed s = autoStartDelayElapsed s"
| "step lc (TranscriptEvent t f) s = transcriptEvent t f s"
| "step lc UtteranceEndEvent s = utteranceEndEvent lc s"

fun run :: "(jsstring \<Rightarrow> jsstring) \<Rightarrow> event list \<Rightarrow> session \<Rightarrow> session" where
  "run lc [] s = s"
| "run lc (e # es) s = run lc es (step lc e s)"

text \<open>The session after the effects of the first render: the history effect and the
  effect that calls \<^verbatim>\<open>initializeIfNeeded\<close>.\<close>

definition mountedSession :: "jsstring \<Rightarrow> jsstring \<Rightarrow> bool \<Rightarrow> speech_env \<Rightarrow> session" where
  "mountedSession name gender hasOnUserMessage env =
     initializeIfNeeded MountEffect (historyEffect (newSession name gender hasOnUserMessage env))"

subsection \<open>Notions used by the properties\<close>

text \<open>The turns in flight: the calls of \<^verbatim>\<open>processUserMessage\<close> suspended at the completion
  request, and the replies handed to the speech platform whose completion has not run.\<close>

definition turnsInFlight :: "session \<Rightarrow> nat" where
  "turnsInFlight s =
     length (awaitingCompletion s)
     + length (filter (\<lambda>u. uttOnComplete u = TurnComplete) (speechQueue s))"

text \<open>A whole turn with nothing interleaved: the call, the completion request settling,
  and the end of the utterance (which finds nothing to do when the reply was not spoken).\<close>

definition turn :: "bool \<Rightarrow> jsstring \<Rightarrow> api_outcome \<Rightarrow> event list" where
  "turn c m api = [ProcessUserMessage c m, CompletionSettles api, UtteranceSettles]"

text \<open>No turn is in flight and nothing is being spoken.\<close>

definition idle :: "session \<Rightarrow> bool" where
  "idle s = (\<not> processingRef s \<and> awaitingCompletion s = [] \<and> speechQueue s = [])"

definition userContents :: "msg list \<Rightarrow> jsstring list" where
  "userContents h = map content (filter (\<lambda>x. role x = (js ''user'')) h)"

text \<open>The part of the session that a turn reads and writes.\<close>

definition turnFields :: "session \<Rightarrow> bool \<times> pending_turn list \<times> utt list \<times> msg list \<times> jsstring" where
  "turnFields s =
     (processingRef s, awaitingCompletion s, speechQueue s, conversationHistory s,
      lastProcessedMessageRef s)"

text \<open>The guard \<^verbatim>\<open>processingRef\<close> is set exactly when one turn is in flight, and there is
  never more than one.\<close>

definition guardInv :: "session \<Rightarrow> bool" where
  "guardInv s = (turnsInFlight s = (if processingRef s then 1 else 0))"

text \<open>A session used to run the functions on concrete inputs: just mounted, with the
  \<^verbatim>\<open>onUserMessage\<close> callback supplied and a working speech platform.\<close>

definition exampleSession :: session where
  "exampleSession = mountedSession (js ''Alex'') (js ''male'') True SpeechWorks"

text \<open>The shape of the history of a session with the given user identity: the system
  message built from the identity, then only user and assistant messages.\<close>

definition historyInv :: "jsstring \<Rightarrow> jsstring \<Rightarrow> msg list \<Rightarrow> bool" where
  "historyInv name gender h =
     (case h of
        [] \<Rightarrow> False
      | x # rest \<Rightarrow>
          x = \<lparr>role = (js ''system''), content = systemPrompt name gender\<rparr>
          \<and> list_all (\<lambda>m. role m = (js ''user'') \<or> role m = (js ''assistant'')) rest)"

text \<open>The fields that \<^verbatim>\<open>initializeIfNeeded\<close> and the settling of its promise work on.\<close>

definition initFields ::
  "session \<Rightarrow> bool \<times> bool \<times> nat \<times> (init_caller \<times> bool) list \<times> init_caller list \<times> bool" where
  "initFields s =
     (isInitializedRef s, initializationPromiseRef s, initAttempts s, initObserved s,
      initWaiters s, isConnected s)"

text \<open>The example session once connected and listening: the connection handshake
  succeeds, \<^verbatim>\<open>startListening\<close> is called and the microphone permission is granted.\<close>

definition listeningSession :: session where
  "listeningSession =
     userMediaSettles True (startListening False (connectionSettles True exampleSession))"

text \<open>In the examples, all of them ASCII, the platform's lower-casing of strings with
  other code units is never consulted; this function stands in for it there.\<close>

definition exampleLower :: "jsstring \<Rightarrow> jsstring" where
  "exampleLower t = t"

section \<open>Proofs\<close>

subsection \<open>String literals\<close>

lemma unat_of_char: "unat (of_char c :: 16 word) = of_char c"
proof -
  have "(of_char c :: nat) < 256"
    by (cases c) simp
  then have "(of_char c :: nat) < 65536"
    by linarith
  then have "unat (of_nat (of_char c) :: 16 word) = of_char c"
    by (simp add: unat_of_nat)
  then show ?thesis
    by (simp add: of_nat_of_char)
qed

lemma inj_of_char_word: "inj (of_char :: char \<Rightarrow> 16 word)"
proof (rule injI)
  fix c d :: char
  assume "(of_char c :: 16 word) = of_char d"
  then have "unat (of_char c :: 16 word) = unat (of_char d :: 16 word)"
    by simp
  then show "c = d"
    by (simp add: unat_of_char)
qed

lemma js_eq_iff [simp]: "(js a = js b) = (a = b)"
  by (simp add: js_def inj_map_eq_map inj_of_char_word)

lemma js_eq_Nil [simp]: "(js a = []) = (a = [])"
  by (simp add: js_def)

lemma Nil_eq_js [simp]: "([] = js a) = (a = [])"
  by (simp add: js_def)

subsection \<open>What listening, initialization and transcripts leave alone\<close>

lemma tf_deepgramStartListening: "turnFields (deepgramStartListening c s) = turnFields s"
  by (simp add: turnFields_def deepgramStartListening_def deepgramStartRecorder_def Let_def)

lemma tf_startListeningAfterInit: "turnFields (startListeningAfterInit ok c s) = turnFields s"
  using tf_deepgramStartListening [of c s]
  by (simp add: startListeningAfterInit_def turnFields_def)

lemma tf_initResumes: "turnFields (initResumes ok w s) = turnFields s"
  by (cases w) (simp_all add: tf_startListeningAfterInit, simp_all add: turnFields_def)

lemma tf_fold_initResumes: "turnFields (fold (initResumes ok) ws s) = turnFields s"
  by (induction ws arbitrary: s) (simp_all add: tf_initResumes)

lemma tf_initializeIfNeeded: "turnFields (initializeIfNeeded w s) = turnFields s"
  by (simp add: initializeIfNeeded_def tf_initResumes Let_def) (simp add: turnFields_def)

lemma tf_connectionSettles: "turnFields (connectionSettles ok s) = turnFields s"
  by (simp add: connectionSettles_def tf_fold_initResumes Let_def) (simp add: turnFields_def)

lemma tf_startListening: "turnFields (startListening c s) = turnFields s"
  by (simp add: startListening_def tf_initializeIfNeeded) (simp add: turnFields_def)

lemma tf_userMediaSettles: "turnFields (userMediaSettles g s) = turnFields s"
  by (simp add: userMediaSettles_def turnFields_def deepgramStartRecorder_def split: list.splits)

lemma tf_stopListening: "turnFields (stopListening s) = turnFields s"
  by (simp add: stopListening_def turnFields_def deepgramStopRecorder_def)

lemma tf_stopDelayElapsed: "turnFields (stopDelayElapsed s) = turnFields s"
  by (simp add: stopDelayElapsed_def turnFields_def)

lemma tf_unmuteAudio: "turnFields (unmuteAudio s) = turnFields s"
  by (simp add: unmuteAudio_def turnFields_def)

lemma tf_sendInitialGreeting: "turnFields (sendInitialGreeting c s) = turnFields s"
  by (simp add: sendInitialGreeting_def turnFields_def)

lemma tf_autoStartDelayElapsed: "turnFields (autoStartDelayElapsed s) = turnFields s"
  by (simp add: autoStartDelayElapsed_def tf_startListening split: list.splits)
     (simp add: turnFields_def)

lemma tf_transcriptListener: "turnFields (transcriptListener t f s) = turnFields s"
  by (simp add: transcriptListener_def turnFields_def Let_def)

lemma tf_funpow_transcriptListener:
  "turnFields ((transcriptListener t f ^^ n) s) = turnFields s"
  by (induction n) (simp_all add: tf_transcriptListener)

lemma tf_transcriptEvent: "turnFields (transcriptEvent t f s) = turnFields s"
  by (simp add: transcriptEvent_def tf_funpow_transcriptListener)

subsection \<open>The in-flight guard\<close>

lemma guardInv_turnFields: "turnFields s' = turnFields s \<Longrightarrow> guardInv s' = guardInv s"
  by (simp add: guardInv_def turnsInFlight_def turnFields_def)

lemma filter_cancelSpeech:
  "filter (\<lambda>u. uttOnComplete u = h) (cancelSpeech q)
   = cancelSpeech (filter (\<lambda>u. uttOnComplete u = h) q)"
  by (induction q) (simp_all add: cancelSpeech_def)

lemma length_cancelSpeech: "length (cancelSpeech q) = length q"
  by (simp add: cancelSpeech_def)

lemma cancelSpeech_eq_Nil: "(cancelSpeech q = []) = (q = [])"
  by (simp add: cancelSpeech_def)

lemma guardInv_processUserMessage: "guardInv s \<Longrightarrow> guardInv (processUserMessage lc c m s)"
  by (auto simp add: guardInv_def processUserMessage_def turnsInFlight_def split: if_splits)

lemma guardInv_finallyResume: "guardInv (finallyResume s) = guardInv s"
  by (simp add: guardInv_def finallyResume_def resumeListening_def turnsInFlight_def)

lemma guardInv_speak_turn:
  assumes "turnsInFlight s = 0" and "processingRef s"
  shows "guardInv (speak r TurnComplete s)"
  using assms
  by (cases "speechEnv s")
     (auto simp add: guardInv_def speak_def turnsInFlight_def filter_cancelSpeech
        length_cancelSpeech)

lemma guardInv_afterCompletion:
  assumes "turnsInFlight s = 0" and "processingRef s"
  shows "guardInv (afterCompletion c res s)"
proof (cases res)
  case (Inl e)
  with assms show ?thesis
    by (simp add: afterCompletion_def guardInv_def turnsInFlight_def)
next
  case (Inr r)
  show ?thesis
  proof (cases "r = []")
    case True
    with Inr assms show ?thesis
      by (simp add: afterCompletion_def guardInv_def turnsInFlight_def)
  next
    case False
    let ?s1 = "s\<lparr>conversationHistory := appendAssistant r (conversationHistory s),
                   notifications := notifications s @ [OnResponse r]\<rparr>"
    have t: "turnsInFlight ?s1 = 0" and p: "processingRef ?s1"
      using assms by (simp_all add: turnsInFlight_def)
    have a: "guardInv (speak r TurnComplete ?s1)"
      by (rule guardInv_speak_turn [OF t p])
    have b: "guardInv (onComplete TurnComplete ?s1)"
      using t by (simp add: guardInv_def turnsInFlight_def)
    from a b Inr False show ?thesis
      by (simp add: afterCompletion_def Let_def)
  qed
qed

lemma guardInv_completionSettles: "guardInv s \<Longrightarrow> guardInv (completionSettles api s)"
proof (cases "awaitingCompletion s")
  case Nil
  assume "guardInv s"
  with Nil show ?thesis
    by (simp add: completionSettles_def)
next
  case (Cons p ps)
  assume g: "guardInv s"
  with Cons have pr: "processingRef s"
    and z: "ps = []" "filter (\<lambda>u. uttOnComplete u = TurnComplete) (speechQueue s) = []"
    by (auto simp add: guardInv_def turnsInFlight_def split: if_splits)
  have "guardInv (afterCompletion (capturedMuted p) (getResponse api (updatedHistory p))
                    (s\<lparr>awaitingCompletion := ps\<rparr>))"
    by (rule guardInv_afterCompletion) (use pr z in \<open>simp_all add: turnsInFlight_def\<close>)
  with Cons show ?thesis
    by (simp add: completionSettles_def guardInv_finallyResume)
qed

lemma guardInv_utteranceSettles: "guardInv s \<Longrightarrow> guardInv (utteranceSettles s)"
proof (cases "speechQueue s")
  case Nil
  assume "guardInv s"
  with Nil show ?thesis
    by (simp add: utteranceSettles_def)
next
  case (Cons u q)
  assume g: "guardInv s"
  show ?thesis
  proof (cases "uttOnComplete u")
    case TurnComplete
    with g Cons show ?thesis
      by (auto simp add: utteranceSettles_def guardInv_def turnsInFlight_def split: if_splits)
  next
    case (GreetingComplete c)
    with g Cons show ?thesis
      by (auto simp add: utteranceSettles_def guardInv_def turnsInFlight_def split: if_splits)
  qed
qed

lemma guardInv_muteAudio: "guardInv s \<Longrightarrow> guardInv (muteAudio s)"
  by (auto simp add: muteAudio_def elevenlabsCleanup_def guardInv_def turnsInFlight_def
      filter_cancelSpeech length_cancelSpeech cancelSpeech_eq_Nil split: if_splits)

lemma guardInv_greetingDelayElapsed: "guardInv s \<Longrightarrow> guardInv (greetingDelayElapsed s)"
  by (cases "speechEnv s")
     (auto simp add: greetingDelayElapsed_def Let_def speak_def guardInv_def turnsInFlight_def
        filter_cancelSpeech length_cancelSpeech cancelSpeech_eq_Nil
        split: list.splits if_splits)

lemma guardInv_utteranceEndEvent: "guardInv s \<Longrightarrow> guardInv (utteranceEndEvent lc s)"
proof -
  assume g: "guardInv s"
  have a: "guardInv (s\<lparr>currentTranscript := []\<rparr>)"
    using g by (simp add: guardInv_def turnsInFlight_def)
  show ?thesis
    using g a guardInv_processUserMessage [OF a]
    by (simp add: utteranceEndEvent_def Let_def split: option.splits)
qed

lemma guardInv_step: "guardInv s \<Longrightarrow> guardInv (step lc e s)"
  by (cases e)
     (simp_all add: guardInv_processUserMessage guardInv_completionSettles
        guardInv_utteranceSettles guardInv_muteAudio guardInv_greetingDelayElapsed
        guardInv_utteranceEndEvent
        guardInv_turnFields [OF tf_unmuteAudio] guardInv_turnFields [OF tf_connectionSettles]
        guardInv_turnFields [OF tf_startListening] guardInv_turnFields [OF tf_userMediaSettles]
        guardInv_turnFields [OF tf_stopListening] guardInv_turnFields [OF tf_stopDelayElapsed]
        guardInv_turnFields [OF tf_sendInitialGreeting]
        guardInv_turnFields [OF tf_autoStartDelayElapsed]
        guardInv_turnFields [OF tf_transcriptEvent])

lemma guardInv_run: "guardInv s \<Longrightarrow> guardInv (run lc evs s)"
  by (induction evs arbitrary: s) (simp_all add: guardInv_step)

lemma guardInv_mountedSession: "guardInv (mountedSession n g cb env)"
proof -
  have "guardInv (historyEffect (newSession n g cb env))"
    by (simp add: guardInv_def turnsInFlight_def historyEffect_def newSession_def)
  then show ?thesis
    by (simp add: mountedSession_def guardInv_turnFields [OF tf_initializeIfNeeded])
qed

lemma run_append: "run lc (xs @ ys) s = run lc ys (run lc xs s)"
  by (induction xs arbitrary: s) simp_all

subsection \<open>The example session\<close>

lemma exampleSession_turnFields:
  "turnFields exampleSession
   = (False, [], [], [\<lparr>role = (js ''system''), content = systemPrompt (js ''Alex'') (js ''male'')\<rparr>], [])"
  by (simp add: exampleSession_def mountedSession_def tf_initializeIfNeeded)
     (simp add: turnFields_def historyEffect_def newSession_def)

lemma exampleSession_fields:
  "processingRef exampleSession = False"
  "awaitingCompletion exampleSession = []"
  "speechQueue exampleSession = []"
  "conversationHistory exampleSession
   = [\<lparr>role = (js ''system''), content = systemPrompt (js ''Alex'') (js ''male'')\<rparr>]"
  "lastProcessedMessageRef exampleSession = []"
  using exampleSession_turnFields by (simp_all add: turnFields_def)

lemma exampleSession_idle: "idle exampleSession"
  by (simp add: idle_def exampleSession_fields)

lemma example_strings:
  "trim (js ''hello'') = (js ''hello'')"
  "trim (js ''  Hello '') = (js ''Hello'')"
  "trim (js ''bye'') = (js ''bye'')"
  "toLowerCase lc (js ''hello'') = (js ''hello'')"
  "toLowerCase lc (js ''Hello'') = (js ''hello'')"
  "toLowerCase lc (js ''bye'') = (js ''bye'')"
  by (simp_all add: trim_def isWhiteSpace_def toLowerCase_def isAscii_def toLowerAscii_def js_def)

subsection \<open>One whole turn\<close>

lemma trim_Nil: "trim [] = []"
  by (simp add: trim_def)

text \<open>A message of no-break spaces, ideographic spaces and byte order marks is blank and
  is dropped by the first guard of \<^verbatim>\<open>processUserMessage\<close>.\<close>

lemma blank_unicode_message:
  "trim [0x00A0, 0x3000, 0xFEFF, 0x2028] = []"
  "processUserMessage lc c [0x00A0, 0x3000, 0xFEFF, 0x2028] s = s"
  by (simp_all add: trim_def isWhiteSpace_def processUserMessage_def)

lemma processUserMessage_rejected:
  "trim m = [] \<or> processingRef s \<or> lastProcessedMessageRef s = toLowerCase lc (trim m)
   \<Longrightarrow> processUserMessage lc c m s = s"
  by (auto simp add: processUserMessage_def)

lemma processUserMessage_accepted:
  assumes "trim m \<noteq> []" and "\<not> processingRef s"
    and "lastProcessedMessageRef s \<noteq> toLowerCase lc (trim m)"
  shows "processUserMessage lc c m s =
     s\<lparr>processingRef := True,
       lastProcessedMessageRef := toLowerCase lc (trim m),
       notifications :=
         notifications s @ (if onUserMessage s then [OnUserMessage (trim m)] else []),
       conversationHistory := conversationHistory s @ [\<lparr>role = (js ''user''), content = trim m\<rparr>],
       awaitingCompletion :=
         awaitingCompletion s
         @ [\<lparr>capturedMuted = c,
             updatedHistory = conversationHistory s @ [\<lparr>role = (js ''user''), content = trim m\<rparr>]\<rparr>]\<rparr>"
  using assms by (auto simp add: processUserMessage_def trim_Nil)

lemma userContents_append: "userContents (h @ k) = userContents h @ userContents k"
  by (simp add: userContents_def)

lemma userContents_appendAssistant: "userContents (appendAssistant r h) = userContents h"
  by (simp add: userContents_def appendAssistant_def)

lemma idle_turnFields: "turnFields s' = turnFields s \<Longrightarrow> idle s' = idle s"
  by (simp add: idle_def turnFields_def)

text \<open>The fields of a turn after the completion request of the only suspended call settles.\<close>

lemma afterCompletion_fields:
  assumes "awaitingCompletion s = []" and "speechQueue s = []"
  shows "awaitingCompletion (afterCompletion c res s) = []"
    and "lastProcessedMessageRef (afterCompletion c res s) = lastProcessedMessageRef s"
    and "userContents (conversationHistory (afterCompletion c res s))
         = userContents (conversationHistory s)"
    and "idle (utteranceSettles (finallyResume (afterCompletion c res s)))"
    and "turnFields (utteranceSettles (finallyResume (afterCompletion c res s)))
         = (False, [], [], conversationHistory (afterCompletion c res s),
            lastProcessedMessageRef s)"
  using assms
  by (cases res; cases "speechEnv s"; cases c;
      simp add: afterCompletion_def speak_def Let_def userContents_appendAssistant
        idle_def utteranceSettles_def finallyResume_def resumeListening_def turnFields_def
        cancelSpeech_def)+

lemma turn_rejected:
  assumes "trim m = [] \<or> lastProcessedMessageRef s = toLowerCase lc (trim m)" and "idle s"
  shows "run lc (turn c m api) s = s"
proof -
  have "processUserMessage lc c m s = s"
    using assms(1) by (auto simp add: processUserMessage_rejected)
  with assms(2) show ?thesis
    by (simp add: turn_def idle_def completionSettles_def utteranceSettles_def)
qed

lemma turn_accepted:
  assumes "idle s" and "trim m \<noteq> []"
    and "lastProcessedMessageRef s \<noteq> toLowerCase lc (trim m)"
  shows "idle (run lc (turn c m api) s)"
    and "lastProcessedMessageRef (run lc (turn c m api) s) = toLowerCase lc (trim m)"
    and "userContents (conversationHistory (run lc (turn c m api) s))
         = userContents (conversationHistory s) @ [trim m]"
proof -
  let ?h = "conversationHistory s @ [\<lparr>role = (js ''user''), content = trim m\<rparr>]"
  let ?s1 = "s\<lparr>processingRef := True,
       lastProcessedMessageRef := toLowerCase lc (trim m),
       notifications :=
         notifications s @ (if onUserMessage s then [OnUserMessage (trim m)] else []),
       conversationHistory := ?h,
       awaitingCompletion := []\<rparr>"
  have a: "processUserMessage lc c m s = ?s1\<lparr>awaitingCompletion :=
             [\<lparr>capturedMuted = c, updatedHistory = ?h\<rparr>]\<rparr>"
    using assms by (simp add: processUserMessage_accepted idle_def)
  have r: "run lc (turn c m api) s
           = utteranceSettles (finallyResume (afterCompletion c (getResponse api ?h) ?s1))"
    by (simp add: turn_def a completionSettles_def)
  have e: "awaitingCompletion ?s1 = []" "speechQueue ?s1 = []"
    using assms(1) by (simp_all add: idle_def)
  show "idle (run lc (turn c m api) s)"
    unfolding r by (rule afterCompletion_fields(4) [OF e])
  have t: "turnFields (run lc (turn c m api) s)
           = (False, [], [], conversationHistory (afterCompletion c (getResponse api ?h) ?s1),
              lastProcessedMessageRef ?s1)"
    unfolding r by (rule afterCompletion_fields(5) [OF e])
  from t show "lastProcessedMessageRef (run lc (turn c m api) s) = toLowerCase lc (trim m)"
    by (simp add: turnFields_def)
  from t have "conversationHistory (run lc (turn c m api) s)
               = conversationHistory (afterCompletion c (getResponse api ?h) ?s1)"
    by (simp add: turnFields_def)
  then show "userContents (conversationHistory (run lc (turn c m api) s))
         = userContents (conversationHistory s) @ [trim m]"
    using afterCompletion_fields(3) [OF e, of c "getResponse api ?h"]
    by (simp add: userContents_append) (simp add: userContents_def)
qed

subsection \<open>The history is only appended to\<close>

lemma history_turnFields:
  "turnFields s' = turnFields s \<Longrightarrow> conversationHistory s' = conversationHistory s"
  by (simp add: turnFields_def)

lemma history_speak: "conversationHistory (speak r h s) = conversationHistory s"
  by (cases "speechEnv s"; cases h) (simp_all add: speak_def)

lemma history_onComplete: "conversationHistory (onComplete h s) = conversationHistory s"
  by (cases h) simp_all

lemma history_processUserMessage:
  "conversationHistory (processUserMessage lc c m s) = conversationHistory s
   \<or> conversationHistory (processUserMessage lc c m s)
     = conversationHistory s @ [\<lparr>role = (js ''user''), content = trim m\<rparr>]"
  by (simp add: processUserMessage_def)

lemma history_afterCompletion:
  "conversationHistory (afterCompletion c res s) = conversationHistory s
   \<or> (\<exists>r. conversationHistory (afterCompletion c res s)
          = conversationHistory s @ [\<lparr>role = (js ''assistant''), content = r\<rparr>])"
  by (cases res)
     (simp_all add: afterCompletion_def Let_def history_speak appendAssistant_def)

lemma history_finallyResume: "conversationHistory (finallyResume s) = conversationHistory s"
  by (simp add: finallyResume_def resumeListening_def)

lemma history_completionSettles:
  "conversationHistory (completionSettles api s) = conversationHistory s
   \<or> (\<exists>r. conversationHistory (completionSettles api s)
          = conversationHistory s @ [\<lparr>role = (js ''assistant''), content = r\<rparr>])"
proof (cases "awaitingCompletion s")
  case Nil
  then show ?thesis by (simp add: completionSettles_def)
next
  case (Cons p ps)
  with history_afterCompletion [of "capturedMuted p" "getResponse api (updatedHistory p)"
      "s\<lparr>awaitingCompletion := ps\<rparr>"]
  show ?thesis
    by (simp add: completionSettles_def history_finallyResume)
qed

lemma history_utteranceSettles:
  "conversationHistory (utteranceSettles s) = conversationHistory s"
  by (simp add: utteranceSettles_def history_onComplete split: list.splits)

lemma history_muteAudio: "conversationHistory (muteAudio s) = conversationHistory s"
  by (simp add: muteAudio_def elevenlabsCleanup_def)

lemma history_greetingDelayElapsed:
  "conversationHistory (greetingDelayElapsed s) = conversationHistory s
   \<or> conversationHistory s = []
   \<or> conversationHistory (greetingDelayElapsed s)
     = conversationHistory s @ [\<lparr>role = (js ''assistant''), content = greetingMessage (userName s)\<rparr>]"
  by (simp add: greetingDelayElapsed_def Let_def history_speak greetingHistory_def
      split: list.splits)

lemma history_utteranceEndEvent:
  "conversationHistory (utteranceEndEvent lc s) = conversationHistory s
   \<or> (\<exists>t. conversationHistory (utteranceEndEvent lc s)
          = conversationHistory s @ [\<lparr>role = (js ''user''), content = t\<rparr>])"
proof -
  have "conversationHistory (processUserMessage lc c m (s\<lparr>currentTranscript := []\<rparr>))
          = conversationHistory s
        \<or> conversationHistory (processUserMessage lc c m (s\<lparr>currentTranscript := []\<rparr>))
          = conversationHistory s @ [\<lparr>role = (js ''user''), content = trim m\<rparr>]" for c m
    using history_processUserMessage [of lc c m "s\<lparr>currentTranscript := []\<rparr>"] by simp
  then show ?thesis
    by (auto simp add: utteranceEndEvent_def Let_def split: option.splits)
qed

text \<open>Every event leaves the history as it is or appends one user or assistant message,
  unless the history is empty.\<close>

lemma history_step:
  "conversationHistory (step lc e s) = conversationHistory s
   \<or> conversationHistory s = []
   \<or> (\<exists>x. (role x = (js ''user'') \<or> role x = (js ''assistant''))
          \<and> conversationHistory (step lc e s) = conversationHistory s @ [x])"
proof (cases e)
  case (ProcessUserMessage c m)
  with history_processUserMessage [of lc c m s] show ?thesis by auto
next
  case (CompletionSettles api)
  with history_completionSettles [of api s] show ?thesis by auto
next
  case GreetingDelayElapsed
  with history_greetingDelayElapsed [of s] show ?thesis by auto
next
  case UtteranceEndEvent
  with history_utteranceEndEvent [of lc s] show ?thesis by auto
qed (simp_all add: history_utteranceSettles history_muteAudio
      history_turnFields [OF tf_unmuteAudio] history_turnFields [OF tf_connectionSettles]
      history_turnFields [OF tf_startListening] history_turnFields [OF tf_userMediaSettles]
      history_turnFields [OF tf_stopListening] history_turnFields [OF tf_stopDelayElapsed]
      history_turnFields [OF tf_sendInitialGreeting]
      history_turnFields [OF tf_autoStartDelayElapsed]
      history_turnFields [OF tf_transcriptEvent])

lemma prefix_step: "prefix (conversationHistory s) (conversationHistory (step lc e s))"
  using history_step [of lc e s] by auto

lemma prefix_run: "prefix (conversationHistory s) (conversationHistory (run lc evs s))"
proof (induction evs arbitrary: s)
  case Nil
  show ?case by simp
next
  case (Cons e evs)
  have "prefix (conversationHistory s) (conversationHistory (step lc e s))"
    by (rule prefix_step)
  also have "prefix (conversationHistory (step lc e s)) (conversationHistory (run lc evs (step lc e s)))"
    by (rule Cons.IH)
  finally show ?case by simp
qed

lemma historyInv_append:
  "historyInv n g h \<Longrightarrow> role x = (js ''user'') \<or> role x = (js ''assistant'') \<Longrightarrow> historyInv n g (h @ [x])"
  by (cases h) (simp_all add: historyInv_def)

lemma historyInv_step:
  assumes "historyInv n g (conversationHistory s)"
  shows "historyInv n g (conversationHistory (step lc e s))"
proof -
  from assms have "conversationHistory s \<noteq> []"
    by (auto simp add: historyInv_def)
  with history_step [of lc e s] assms show ?thesis
    by (auto simp add: historyInv_append)
qed

lemma historyInv_run:
  "historyInv n g (conversationHistory s) \<Longrightarrow> historyInv n g (conversationHistory (run lc evs s))"
  by (induction evs arbitrary: s) (simp_all add: historyInv_step)

lemma history_mountedSession:
  "conversationHistory (mountedSession n g cb env)
   = [\<lparr>role = (js ''system''), content = systemPrompt n g\<rparr>]"
  by (simp add: mountedSession_def history_turnFields [OF tf_initializeIfNeeded])
     (simp add: historyEffect_def newSession_def)

subsection \<open>The recorder\<close>

lemma recorder_speak: "mediaRecorder (speak r h s) = mediaRecorder s"
  by (cases "speechEnv s"; cases h) (simp_all add: speak_def)

lemma recorder_onComplete: "mediaRecorder (onComplete h s) = mediaRecorder s"
  by (cases h) simp_all

lemma recorder_processUserMessage: "mediaRecorder (processUserMessage lc c m s) = mediaRecorder s"
  by (simp add: processUserMessage_def)

lemma recorder_afterCompletion: "mediaRecorder (afterCompletion c res s) = mediaRecorder s"
  by (cases res) (simp_all add: afterCompletion_def Let_def recorder_speak)

lemma notPaused_finallyResume:
  "mediaRecorder s \<noteq> Some paused \<Longrightarrow> finallyResume s = s"
  by (simp add: finallyResume_def resumeListening_def)

lemma notPaused_completionSettles:
  "mediaRecorder s \<noteq> Some paused \<Longrightarrow> mediaRecorder (completionSettles api s) = mediaRecorder s"
  by (simp add: completionSettles_def notPaused_finallyResume recorder_afterCompletion
      split: list.splits)

lemma recorder_utteranceSettles: "mediaRecorder (utteranceSettles s) = mediaRecorder s"
  by (simp add: utteranceSettles_def recorder_onComplete split: list.splits)

lemma recorder_muteAudio: "mediaRecorder (muteAudio s) = mediaRecorder s"
  by (simp add: muteAudio_def elevenlabsCleanup_def)

lemma recorder_greetingDelayElapsed: "mediaRecorder (greetingDelayElapsed s) = mediaRecorder s"
  by (simp add: greetingDelayElapsed_def Let_def recorder_speak split: list.splits)

lemma recorder_utteranceEndEvent: "mediaRecorder (utteranceEndEvent lc s) = mediaRecorder s"
  by (simp add: utteranceEndEvent_def Let_def recorder_processUserMessage split: option.splits)

lemma recorder_transcriptListener: "mediaRecorder (transcriptListener t f s) = mediaRecorder s"
  by (simp add: transcriptListener_def Let_def)

lemma recorder_transcriptEvent: "mediaRecorder (transcriptEvent t f s) = mediaRecorder s"
proof -
  have "mediaRecorder ((transcriptListener t f ^^ k) s) = mediaRecorder s" for k
    by (induction k) (simp_all add: recorder_transcriptListener)
  then show ?thesis
    by (simp add: transcriptEvent_def)
qed

lemma notPaused_deepgramStartListening:
  "mediaRecorder s \<noteq> Some paused \<Longrightarrow> mediaRecorder (deepgramStartListening c s) \<noteq> Some paused"
  by (simp add: deepgramStartListening_def deepgramStartRecorder_def Let_def)

lemma notPaused_initResumes:
  "mediaRecorder s \<noteq> Some paused \<Longrightarrow> mediaRecorder (initResumes ok w s) \<noteq> Some paused"
proof (cases w)
  case MountEffect
  assume "mediaRecorder s \<noteq> Some paused"
  with MountEffect show ?thesis by simp
next
  case (StartListeningCaller c)
  assume "mediaRecorder s \<noteq> Some paused"
  with StartListeningCaller
    notPaused_deepgramStartListening
      [of "s\<lparr>initObserved := initObserved s @ [(StartListeningCaller c, ok)]\<rparr>" c]
  show ?thesis
    by (auto simp add: startListeningAfterInit_def)
qed

lemma notPaused_fold_initResumes:
  "mediaRecorder s \<noteq> Some paused
   \<Longrightarrow> mediaRecorder (fold (initResumes ok) ws s) \<noteq> Some paused"
  by (induction ws arbitrary: s) (simp_all add: notPaused_initResumes)

lemma notPaused_initializeIfNeeded:
  "mediaRecorder s \<noteq> Some paused \<Longrightarrow> mediaRecorder (initializeIfNeeded w s) \<noteq> Some paused"
  by (simp add: initializeIfNeeded_def Let_def notPaused_initResumes)

lemma notPaused_connectionSettles:
  "mediaRecorder s \<noteq> Some paused \<Longrightarrow> mediaRecorder (connectionSettles ok s) \<noteq> Some paused"
  by (simp add: connectionSettles_def Let_def notPaused_fold_initResumes)

lemma notPaused_startListening:
  "mediaRecorder s \<noteq> Some paused \<Longrightarrow> mediaRecorder (startListening c s) \<noteq> Some paused"
  by (simp add: startListening_def notPaused_initializeIfNeeded)

lemma notPaused_autoStartDelayElapsed:
  "mediaRecorder s \<noteq> Some paused \<Longrightarrow> mediaRecorder (autoStartDelayElapsed s) \<noteq> Some paused"
  by (simp add: autoStartDelayElapsed_def notPaused_startListening split: list.splits)

lemma notPaused_userMediaSettles:
  "mediaRecorder s \<noteq> Some paused \<Longrightarrow> mediaRecorder (userMediaSettles g s) \<noteq> Some paused"
  by (simp add: userMediaSettles_def deepgramStartRecorder_def split: list.splits)

lemma notPaused_stopListening:
  "mediaRecorder s \<noteq> Some paused \<Longrightarrow> mediaRecorder (stopListening s) \<noteq> Some paused"
  by (simp add: stopListening_def deepgramStopRecorder_def)

lemma notPaused_step:
  "mediaRecorder s \<noteq> Some paused \<Longrightarrow> mediaRecorder (step lc e s) \<noteq> Some paused"
  by (cases e)
     (simp_all add: recorder_processUserMessage notPaused_completionSettles
        recorder_utteranceSettles recorder_muteAudio recorder_greetingDelayElapsed
        recorder_utteranceEndEvent recorder_transcriptEvent notPaused_connectionSettles
        notPaused_startListening notPaused_autoStartDelayElapsed notPaused_userMediaSettles
        notPaused_stopListening unmuteAudio_def stopDelayElapsed_def sendInitialGreeting_def)

lemma notPaused_run:
  "mediaRecorder s \<noteq> Some paused \<Longrightarrow> mediaRecorder (run lc evs s) \<noteq> Some paused"
  by (induction evs arbitrary: s) (simp_all add: notPaused_step)

lemma recorder_mountedSession: "mediaRecorder (mountedSession n g cb env) = None"
  by (simp add: mountedSession_def initializeIfNeeded_def historyEffect_def newSession_def)

lemma listeningSession_fields:
  "isListeningRef listeningSession"
  "mediaRecorder listeningSession = Some recording"
  "turnFields listeningSession = turnFields exampleSession"
  by (simp_all add: listeningSession_def exampleSession_def mountedSession_def
      initializeIfNeeded_def historyEffect_def newSession_def connectionSettles_def
      startListening_def startListeningAfterInit_def deepgramStartListening_def
      userMediaSettles_def deepgramStartRecorder_def turnFields_def Let_def)

lemma listeningSession_onUserMessage: "onUserMessage listeningSession"
  by (simp add: listeningSession_def exampleSession_def mountedSession_def
      initializeIfNeeded_def historyEffect_def newSession_def connectionSettles_def
      startListening_def startListeningAfterInit_def deepgramStartListening_def
      userMediaSettles_def deepgramStartRecorder_def Let_def)

subsection \<open>Initialization\<close>

lemma if_speak: "initFields (speak r h s) = initFields s"
  by (cases "speechEnv s"; cases h) (simp_all add: speak_def initFields_def)

lemma if_onComplete: "initFields (onComplete h s) = initFields s"
  by (cases h) (simp_all add: initFields_def)

lemma if_processUserMessage: "initFields (processUserMessage lc c m s) = initFields s"
  by (simp add: processUserMessage_def initFields_def)

lemma if_afterCompletion: "initFields (afterCompletion c res s) = initFields s"
  by (cases res) (simp_all add: afterCompletion_def Let_def if_speak, simp_all add: initFields_def)

lemma if_completionSettles: "initFields (completionSettles api s) = initFields s"
proof (cases "awaitingCompletion s")
  case Nil
  then show ?thesis by (simp add: completionSettles_def)
next
  case (Cons p ps)
  have "initFields (finallyResume x) = initFields x" for x
    by (simp add: finallyResume_def resumeListening_def initFields_def)
  with Cons show ?thesis
    by (simp add: completionSettles_def if_afterCompletion) (simp add: initFields_def)
qed

lemma if_utteranceSettles: "initFields (utteranceSettles s) = initFields s"
  by (simp add: utteranceSettles_def if_onComplete split: list.splits)
     (simp add: initFields_def)

lemma if_muteAudio: "initFields (muteAudio s) = initFields s"
  by (simp add: muteAudio_def elevenlabsCleanup_def initFields_def)

lemma if_greetingDelayElapsed: "initFields (greetingDelayElapsed s) = initFields s"
  by (simp add: greetingDelayElapsed_def Let_def if_speak split: list.splits)
     (simp add: initFields_def)

lemma if_utteranceEndEvent: "initFields (utteranceEndEvent lc s) = initFields s"
  by (simp add: utteranceEndEvent_def Let_def if_processUserMessage split: option.splits)
     (simp add: initFields_def)

lemma if_transcriptListener: "initFields (transcriptListener t f s) = initFields s"
  by (simp add: transcriptListener_def Let_def initFields_def)

lemma if_transcriptEvent: "initFields (transcriptEvent t f s) = initFields s"
proof -
  have "initFields ((transcriptListener t f ^^ k) s) = initFields s" for k
    by (induction k) (simp_all add: if_transcriptListener)
  then show ?thesis
    by (simp add: transcriptEvent_def)
qed

lemma if_userMediaSettles: "initFields (userMediaSettles g s) = initFields s"
  by (simp add: userMediaSettles_def deepgramStartRecorder_def initFields_def split: list.splits)

lemma if_stopListening: "initFields (stopListening s) = initFields s"
  by (simp add: stopListening_def deepgramStopRecorder_def initFields_def)

lemma if_startListeningAfterInit: "initFields (startListeningAfterInit ok c s) = initFields s"
  by (simp add: startListeningAfterInit_def deepgramStartListening_def deepgramStartRecorder_def
      Let_def initFields_def)

lemma if_initResumes:
  "initFields (initResumes ok w s) = initFields (s\<lparr>initObserved := initObserved s @ [(w, ok)]\<rparr>)"
  by (cases w) (simp_all add: if_startListeningAfterInit)

lemma if_fold_initResumes:
  "initFields (fold (initResumes ok) ws s)
   = initFields (s\<lparr>initObserved := initObserved s @ map (\<lambda>w. (w, ok)) ws\<rparr>)"
proof (induction ws arbitrary: s)
  case Nil
  show ?case by (simp add: initFields_def)
next
  case (Cons w ws)
  have "initFields (fold (initResumes ok) (w # ws) s)
        = initFields ((initResumes ok w s)\<lparr>initObserved :=
            initObserved (initResumes ok w s) @ map (\<lambda>w. (w, ok)) ws\<rparr>)"
    by (simp add: Cons.IH)
  also have "\<dots> = initFields (s\<lparr>initObserved := initObserved s @ map (\<lambda>w. (w, ok)) (w # ws)\<rparr>)"
    using if_initResumes [of ok w s] by (simp add: initFields_def)
  finally show ?case .
qed

lemma error_startListeningAfterInit:
  "error s \<noteq> None \<Longrightarrow> error (startListeningAfterInit False c s) \<noteq> None"
  by (simp add: startListeningAfterInit_def)

lemma error_fold_initResumes:
  "error s \<noteq> None \<Longrightarrow> error (fold (initResumes False) ws s) \<noteq> None"
proof (induction ws arbitrary: s)
  case Nil
  then show ?case by simp
next
  case (Cons w ws)
  from Cons.prems have "error (initResumes False w s) \<noteq> None"
    by (cases w) (simp_all add: startListeningAfterInit_def)
  then show ?case
    by (simp add: Cons.IH)
qed

text \<open>Calls of \<^verbatim>\<open>initializeIfNeeded\<close> one after the other, before the connection settles.\<close>

lemma if_initializeIfNeeded_pending:
  assumes "\<not> isInitializedRef s"
  shows "initFields (initializeIfNeeded w s)
         = (False, True,
            (if initializationPromiseRef s then initAttempts s else Suc (initAttempts s)),
            initObserved s, initWaiters s @ [w], isConnected s)"
  using assms by (simp add: initializeIfNeeded_def Let_def initFields_def)

lemma if_fold_initializeIfNeeded:
  assumes "\<not> isInitializedRef s" and "ws \<noteq> []"
  shows "initFields (fold initializeIfNeeded ws s)
         = (False, True,
            (if initializationPromiseRef s then initAttempts s else Suc (initAttempts s)),
            initObserved s, initWaiters s @ ws, isConnected s)"
  using assms
proof (induction ws arbitrary: s)
  case Nil
  then show ?case by simp
next
  case (Cons w ws)
  note one = if_initializeIfNeeded_pending [OF Cons.prems(1), of w]
  show ?case
  proof (cases "ws = []")
    case True
    with one show ?thesis by simp
  next
    case False
    from one have n: "\<not> isInitializedRef (initializeIfNeeded w s)"
      by (simp add: initFields_def)
    from Cons.IH [OF n False] one show ?thesis
      by (simp add: initFields_def)
  qed
qed

lemma if_connectionSettles_pending:
  assumes "\<not> isInitializedRef s" and "initializationPromiseRef s"
  shows "initFields (connectionSettles ok s)
         = (ok, ok, initAttempts s, initObserved s @ map (\<lambda>w. (w, ok)) (initWaiters s), [],
            ok \<or> isConnected s)"
  using assms
  by (simp add: connectionSettles_def Let_def if_fold_initResumes) (simp add: initFields_def)

lemma error_connectionSettles_failure:
  assumes "\<not> isInitializedRef s" and "initializationPromiseRef s"
  shows "error (connectionSettles False s) \<noteq> None"
  using assms
  by (simp add: connectionSettles_def Let_def error_fold_initResumes)

lemma attempts_initializeIfNeeded:
  "initAttempts (initializeIfNeeded w s)
   = (if isInitializedRef s \<or> initializationPromiseRef s then initAttempts s
      else Suc (initAttempts s))"
proof (cases "isInitializedRef s")
  case True
  with if_initResumes [of True w s] show ?thesis
    by (simp add: initializeIfNeeded_def initFields_def)
next
  case False
  with if_initializeIfNeeded_pending [of s w] show ?thesis
    by (simp add: initFields_def)
qed

lemma attempts_connectionSettles: "initAttempts (connectionSettles ok s) = initAttempts s"
proof (cases "\<not> isInitializedRef s \<and> initializationPromiseRef s")
  case True
  with if_connectionSettles_pending [of s ok] show ?thesis
    by (simp add: initFields_def)
next
  case False
  then show ?thesis
    by (auto simp add: connectionSettles_def)
qed

lemma attempts_startListening:
  "initAttempts (startListening c s)
   = (if isInitializedRef s \<or> initializationPromiseRef s then initAttempts s
      else Suc (initAttempts s))"
  by (simp add: startListening_def attempts_initializeIfNeeded)

lemma attempts_step:
  assumes "isInitializedRef s \<or> initializationPromiseRef s"
  shows "initAttempts (step lc e s) = initAttempts s"
proof -
  have k: "initFields s' = initFields s \<Longrightarrow> initAttempts s' = initAttempts s" for s'
    by (simp add: initFields_def)
  show ?thesis
    using assms
    by (cases e)
       (simp_all add: k [OF if_processUserMessage] k [OF if_completionSettles]
          k [OF if_utteranceSettles] k [OF if_muteAudio] k [OF if_greetingDelayElapsed]
          k [OF if_utteranceEndEvent] k [OF if_transcriptEvent] k [OF if_userMediaSettles]
          k [OF if_stopListening] attempts_connectionSettles attempts_startListening
          unmuteAudio_def stopDelayElapsed_def sendInitialGreeting_def
          autoStartDelayElapsed_def split: list.splits)
qed

subsection \<open>An accepted utterance and the settling of its completion request\<close>

lemma completionSettles_accepted:
  assumes "trim m \<noteq> []" and "\<not> processingRef s" and "awaitingCompletion s = []"
    and "lastProcessedMessageRef s \<noteq> toLowerCase lc (trim m)"
  shows "completionSettles api (processUserMessage lc c m s)
         = finallyResume
             (afterCompletion c
                (getResponse api (conversationHistory s @ [\<lparr>role = (js ''user''), content = trim m\<rparr>]))
                (s\<lparr>processingRef := True,
                   lastProcessedMessageRef := toLowerCase lc (trim m),
                   notifications :=
                     notifications s @ (if onUserMessage s then [OnUserMessage (trim m)] else []),
                   conversationHistory :=
                     conversationHistory s @ [\<lparr>role = (js ''user''), content = trim m\<rparr>],
                   awaitingCompletion := []\<rparr>))"
  using assms by (simp add: processUserMessage_accepted completionSettles_def)

lemma appendAssistant_after_user:
  "appendAssistant r (h @ [\<lparr>role = (js ''user''), content = t\<rparr>])
   = h @ [\<lparr>role = (js ''user''), content = t\<rparr>, \<lparr>role = (js ''assistant''), content = r\<rparr>]"
  by (simp add: appendAssistant_def)

text \<open>The request fails, or the reply is empty: nothing is said and the guard is released.\<close>

lemma silent_end:
  assumes "trim m \<noteq> []" and "\<not> processingRef s" and "awaitingCompletion s = []"
    and "lastProcessedMessageRef s \<noteq> toLowerCase lc (trim m)"
    and "getResponse api (conversationHistory s @ [\<lparr>role = (js ''user''), content = trim m\<rparr>])
         = Inl e
         \<or> getResponse api (conversationHistory s @ [\<lparr>role = (js ''user''), content = trim m\<rparr>])
           = Inr []"
  shows "conversationHistory (completionSettles api (processUserMessage lc c m s))
         = conversationHistory s @ [\<lparr>role = (js ''user''), content = trim m\<rparr>]"
    and "notifications (completionSettles api (processUserMessage lc c m s))
         = notifications s @ (if onUserMessage s then [OnUserMessage (trim m)] else [])"
    and "\<not> processingRef (completionSettles api (processUserMessage lc c m s))"
    and "awaitingCompletion (completionSettles api (processUserMessage lc c m s)) = []"
    and "speechQueue (completionSettles api (processUserMessage lc c m s)) = speechQueue s"
    and "lastProcessedMessageRef (completionSettles api (processUserMessage lc c m s))
         = toLowerCase lc (trim m)"
    and "isListeningRef (completionSettles api (processUserMessage lc c m s)) = isListeningRef s"
    and "mediaRecorder (completionSettles api (processUserMessage lc c m s))
         = (if isListeningRef s \<and> mediaRecorder s = Some paused then Some recording
            else mediaRecorder s)"
    and "isMuted (completionSettles api (processUserMessage lc c m s)) = isMuted s"
  using assms(5)
  by (auto simp add: completionSettles_accepted [OF assms(1-4)] afterCompletion_def
      finallyResume_def resumeListening_def)

lemma silent_end_error:
  assumes "trim m \<noteq> []" and "\<not> processingRef s" and "awaitingCompletion s = []"
    and "lastProcessedMessageRef s \<noteq> toLowerCase lc (trim m)"
  shows "error (completionSettles ApiThrows (processUserMessage lc c m s))
         = Some (js ''Failed to get AI response'')"
    and "getResponse api (conversationHistory s @ [\<lparr>role = (js ''user''), content = trim m\<rparr>]) = Inr []
         \<Longrightarrow> error (completionSettles api (processUserMessage lc c m s)) = error s"
  by (auto simp add: completionSettles_accepted [OF assms(1-4)] afterCompletion_def
      finallyResume_def resumeListening_def)

text \<open>A reply: the fields after the completion request has settled.\<close>

lemma reply_fields:
  assumes "trim m \<noteq> []" and "\<not> processingRef s" and "awaitingCompletion s = []"
    and "lastProcessedMessageRef s \<noteq> toLowerCase lc (trim m)"
    and "getResponse api (conversationHistory s @ [\<lparr>role = (js ''user''), content = trim m\<rparr>])
         = Inr r"
    and "r \<noteq> []"
  shows "conversationHistory (completionSettles api (processUserMessage lc c m s))
         = conversationHistory s
           @ [\<lparr>role = (js ''user''), content = trim m\<rparr>, \<lparr>role = (js ''assistant''), content = r\<rparr>]"
    and "notifications (completionSettles api (processUserMessage lc c m s))
         = notifications s @ (if onUserMessage s then [OnUserMessage (trim m)] else [])
           @ [OnResponse r]
           @ (if c \<or> speechEnv s \<noteq> SpeechWorks then [OnSpeakingComplete] else [])"
    and "processingRef (completionSettles api (processUserMessage lc c m s))
         = (\<not> c \<and> speechEnv s = SpeechWorks)"
    and "speechQueue (completionSettles api (processUserMessage lc c m s))
         = (if c \<or> speechEnv s = SpeechUnsupported then speechQueue s
            else if speechEnv s = SpeechThrows then cancelSpeech (speechQueue s)
            else cancelSpeech (speechQueue s)
                 @ [\<lparr>uttText = r, uttOnComplete = TurnComplete, cancelled = False\<rparr>])"
    and "awaitingCompletion (completionSettles api (processUserMessage lc c m s)) = []"
    and "isMuted (completionSettles api (processUserMessage lc c m s)) = isMuted s"
  using assms(5,6)
  by (cases "speechEnv s";
      simp add: completionSettles_accepted [OF assms(1-4)] afterCompletion_def Let_def
        appendAssistant_after_user speak_def finallyResume_def resumeListening_def)+

text \<open>A whole turn with a reply, from a session with no turn in flight.\<close>

lemma turn_reply:
  assumes "idle s" and "trim m \<noteq> []"
    and "lastProcessedMessageRef s \<noteq> toLowerCase lc (trim m)"
    and "getResponse api (conversationHistory s @ [\<lparr>role = (js ''user''), content = trim m\<rparr>])
         = Inr r"
    and "r \<noteq> []"
  shows "conversationHistory (run lc (turn c m api) s)
         = conversationHistory s
           @ [\<lparr>role = (js ''user''), content = trim m\<rparr>, \<lparr>role = (js ''assistant''), content = r\<rparr>]"
    and "notifications (run lc (turn c m api) s)
         = notifications s @ (if onUserMessage s then [OnUserMessage (trim m)] else [])
           @ [OnResponse r, OnSpeakingComplete]"
proof -
  from assms(1) have i: "\<not> processingRef s" "awaitingCompletion s = []" "speechQueue s = []"
    by (simp_all add: idle_def)
  let ?s2 = "completionSettles api (processUserMessage lc c m s)"
  note f = reply_fields [OF assms(2) i(1) i(2) assms(3) assms(4) assms(5), of c]
  have r: "run lc (turn c m api) s = utteranceSettles ?s2"
    by (simp add: turn_def)
  show "conversationHistory (run lc (turn c m api) s)
         = conversationHistory s
           @ [\<lparr>role = (js ''user''), content = trim m\<rparr>, \<lparr>role = (js ''assistant''), content = r\<rparr>]"
    by (simp add: r history_utteranceSettles f(1))
  show "notifications (run lc (turn c m api) s)
         = notifications s @ (if onUserMessage s then [OnUserMessage (trim m)] else [])
           @ [OnResponse r, OnSpeakingComplete]"
  proof (cases "c \<or> speechEnv s \<noteq> SpeechWorks")
    case True
    then have "speechQueue ?s2 = []"
      using f(4) i(3) by (cases "speechEnv s") (auto simp add: cancelSpeech_def)
    then have n: "utteranceSettles ?s2 = ?s2"
      by (simp add: utteranceSettles_def)
    show ?thesis
      unfolding r n f(2) using True by simp
  next
    case False
    then have "speechQueue ?s2 = [\<lparr>uttText = r, uttOnComplete = TurnComplete, cancelled = False\<rparr>]"
      using f(4) i(3) by (auto simp add: cancelSpeech_def)
    then have n: "notifications (utteranceSettles ?s2) = notifications ?s2 @ [OnSpeakingComplete]"
      by (simp add: utteranceSettles_def)
    show ?thesis
      unfolding r n f(2) using False by simp
  qed
qed

subsection \<open>C1: at most one turn in flight\<close>

text \<open>
  Claim C1.  A call of \<^verbatim>\<open>processUserMessage\<close> that arrives while the in-flight guard
  \<^verbatim>\<open>processingRef\<close> is set returns the session as it found it: the history, the duplicate
  key, every other field and the list of notifications are unchanged.  And in every state
  that a mounted session reaches, under any sequence of events, at most one turn is in
  flight (suspended at the completion request, or handed to the speech platform and not
  yet completed), and the guard is set exactly when there is one.
\<close>

theorem C1_single_turn_in_flight:
  "(processingRef s \<longrightarrow> processUserMessage lc c m s = s)
   \<and> turnsInFlight (run lc evs (mountedSession n g cb env)) \<le> 1
   \<and> processingRef (run lc evs (mountedSession n g cb env))
     = (turnsInFlight (run lc evs (mountedSession n g cb env)) = 1)"
proof -
  have "guardInv (run lc evs (mountedSession n g cb env))"
    by (rule guardInv_run) (rule guardInv_mountedSession)
  then show ?thesis
    by (simp add: guardInv_def processUserMessage_def split: if_splits)
qed

theorem C1_single_turn_in_flight_witness:
  "processingRef (processUserMessage exampleLower False (js ''hello'') exampleSession)
   \<and> processUserMessage exampleLower True (js ''bye'') (processUserMessage exampleLower False (js ''hello'') exampleSession)
     = processUserMessage exampleLower False (js ''hello'') exampleSession
   \<and> turnsInFlight (run exampleLower [ProcessUserMessage False (js ''hello''), ProcessUserMessage True (js ''bye'')]
        exampleSession) \<le> 1"
proof -
  let ?s = "processUserMessage exampleLower False (js ''hello'') exampleSession"
  have p: "processingRef ?s"
    by (simp add: processUserMessage_accepted exampleSession_fields example_strings)
  note c = C1_single_turn_in_flight [of ?s exampleLower True "(js ''bye'')"
      "[ProcessUserMessage False (js ''hello''), ProcessUserMessage True (js ''bye'')]"
      "(js ''Alex'')" "(js ''male'')" True SpeechWorks, folded exampleSession_def]
  from c p have e: "processUserMessage exampleLower True (js ''bye'') ?s = ?s"
    by blast
  from c have "turnsInFlight (run exampleLower [ProcessUserMessage False (js ''hello''),
      ProcessUserMessage True (js ''bye'')] exampleSession) \<le> 1"
    by blast
  with p e show ?thesis
    by blast
qed

subsection \<open>C2: duplicate suppression against the last accepted utterance only\<close>

text \<open>
  Claim C2.  From a session in which no turn is in flight, let an utterance \<open>a\<close> be
  accepted and its turn run to its end.  Then \<open>a\<close> is processed (its trimmed text is the
  one user message added); a following utterance with the same trimmed, lower-cased text
  changes nothing at all, whatever the completion service would answer; and the three
  turns \<open>a\<close>, \<open>b\<close>, \<open>a\<close>, with \<open>b\<close> normalizing to a different text, add the three user
  messages in that order.
\<close>

theorem C2_duplicate_only_against_previous:
  assumes "idle s"
    and "trim a \<noteq> []" and "trim b \<noteq> []"
    and "lastProcessedMessageRef s \<noteq> toLowerCase lc (trim a)"
    and "toLowerCase lc (trim a') = toLowerCase lc (trim a)"
    and "toLowerCase lc (trim b) \<noteq> toLowerCase lc (trim a)"
  shows "userContents (conversationHistory (run lc (turn c1 a api1) s))
           = userContents (conversationHistory s) @ [trim a]
       \<and> run lc (turn c2 a' api2) (run lc (turn c1 a api1) s) = run lc (turn c1 a api1) s
       \<and> userContents (conversationHistory
            (run lc (turn c1 a api1 @ turn c2 b api2 @ turn c3 a api3) s))
           = userContents (conversationHistory s) @ [trim a, trim b, trim a]"
proof -
  let ?s1 = "run lc (turn c1 a api1) s"
  let ?s2 = "run lc (turn c2 b api2) ?s1"
  note t1 = turn_accepted [OF assms(1) assms(2) assms(4), of c1 api1]
  have dup: "run lc (turn c2 a' api2) ?s1 = ?s1"
    by (rule turn_rejected) (simp_all add: t1 assms(5))
  have nb: "lastProcessedMessageRef ?s1 \<noteq> toLowerCase lc (trim b)"
    using assms(6) by (simp add: t1)
  note t2 = turn_accepted [OF t1(1) assms(3) nb, of c2 api2]
  have na: "lastProcessedMessageRef ?s2 \<noteq> toLowerCase lc (trim a)"
    using assms(6) by (simp add: t2)
  note t3 = turn_accepted [OF t2(1) assms(2) na, of c3 api3]
  have "userContents (conversationHistory (run lc (turn c3 a api3) ?s2))
        = userContents (conversationHistory s) @ [trim a, trim b, trim a]"
    by (simp add: t3 t2 t1)
  then show ?thesis
    by (simp add: t1 dup run_append)
qed

theorem C2_duplicate_only_against_previous_witness:
  "idle exampleSession
   \<and> trim (js ''  Hello '') \<noteq> [] \<and> trim (js ''bye'') \<noteq> []
   \<and> lastProcessedMessageRef exampleSession \<noteq> toLowerCase exampleLower (trim (js ''  Hello ''))
   \<and> toLowerCase exampleLower (trim (js ''hello'')) = toLowerCase exampleLower (trim (js ''  Hello ''))
   \<and> toLowerCase exampleLower (trim (js ''bye'')) \<noteq> toLowerCase exampleLower (trim (js ''  Hello ''))
   \<and> userContents (conversationHistory (run exampleLower (turn False (js ''  Hello '') ApiThrows) exampleSession))
     = [(js ''Hello'')]
   \<and> run exampleLower (turn True (js ''hello'') (ApiCompletion [Some (js ''Bye!'')]))
        (run exampleLower (turn False (js ''  Hello '') ApiThrows) exampleSession)
     = run exampleLower (turn False (js ''  Hello '') ApiThrows) exampleSession
   \<and> userContents (conversationHistory
        (run exampleLower (turn False (js ''  Hello '') ApiThrows @ turn True (js ''bye'') (ApiCompletion [Some (js ''Bye!'')])
              @ turn False (js ''  Hello '') (ApiCompletion [])) exampleSession))
     = [(js ''Hello''), (js ''bye''), (js ''Hello'')]"
proof -
  have h: "idle exampleSession" "trim (js ''  Hello '') \<noteq> []" "trim (js ''bye'') \<noteq> []"
    "lastProcessedMessageRef exampleSession \<noteq> toLowerCase exampleLower (trim (js ''  Hello ''))"
    "toLowerCase exampleLower (trim (js ''hello'')) = toLowerCase exampleLower (trim (js ''  Hello ''))"
    "toLowerCase exampleLower (trim (js ''bye'')) \<noteq> toLowerCase exampleLower (trim (js ''  Hello ''))"
    by (simp_all add: exampleSession_idle exampleSession_fields example_strings)
  from h C2_duplicate_only_against_previous [OF h, of False ApiThrows True
      "ApiCompletion [Some (js ''Bye!'')]" False "ApiCompletion []"]
  show ?thesis
    by (simp add: exampleSession_fields example_strings userContents_def)
qed

subsection \<open>C3: one connection attempt shared by all callers\<close>

text \<open>
  Claim C3.  Let no attempt be under way and none have succeeded, and let the callers
  \<open>ws\<close> (at least one) call \<^verbatim>\<open>initializeIfNeeded\<close> one after the other before the
  connection settles.  Then \<^verbatim>\<open>deepgram.initialize()\<close> is called once, all the callers
  await that one attempt and none has gone on yet.  When the attempt succeeds, every
  caller sees the success, the connected signal and \<^verbatim>\<open>isInitializedRef\<close> are set, and a
  later call makes no attempt.  When it fails, every caller sees the failure, an error
  is reported, the cached promise is dropped, and a later call makes one new attempt.
  In any state, no event starts an attempt while one is cached or has succeeded.
\<close>

theorem C3_single_initialization_attempt:
  assumes "\<not> isInitializedRef s" and "\<not> initializationPromiseRef s"
    and "initWaiters s = []" and "ws \<noteq> []"
  shows "initAttempts (fold initializeIfNeeded ws s) = Suc (initAttempts s)
       \<and> initWaiters (fold initializeIfNeeded ws s) = ws
       \<and> initObserved (fold initializeIfNeeded ws s) = initObserved s
       \<and> initObserved (connectionSettles True (fold initializeIfNeeded ws s))
           = initObserved s @ map (\<lambda>w. (w, True)) ws
       \<and> isConnected (connectionSettles True (fold initializeIfNeeded ws s))
       \<and> isInitializedRef (connectionSettles True (fold initializeIfNeeded ws s))
       \<and> initAttempts (initializeIfNeeded w (connectionSettles True (fold initializeIfNeeded ws s)))
           = Suc (initAttempts s)
       \<and> initObserved (connectionSettles False (fold initializeIfNeeded ws s))
           = initObserved s @ map (\<lambda>w. (w, False)) ws
       \<and> error (connectionSettles False (fold initializeIfNeeded ws s)) \<noteq> None
       \<and> \<not> initializationPromiseRef (connectionSettles False (fold initializeIfNeeded ws s))
       \<and> \<not> isInitializedRef (connectionSettles False (fold initializeIfNeeded ws s))
       \<and> initAttempts (connectionSettles False (fold initializeIfNeeded ws s))
           = Suc (initAttempts s)
       \<and> initAttempts (initializeIfNeeded w (connectionSettles False (fold initializeIfNeeded ws s)))
           = Suc (Suc (initAttempts s))
       \<and> (isInitializedRef s' \<or> initializationPromiseRef s'
            \<longrightarrow> initAttempts (step lc e s') = initAttempts s')"
proof -
  let ?p = "fold initializeIfNeeded ws s"
  have p: "initFields ?p = (False, True, Suc (initAttempts s), initObserved s, ws, isConnected s)"
    using if_fold_initializeIfNeeded [OF assms(1) assms(4)] assms(2) assms(3) by simp
  then have q: "\<not> isInitializedRef ?p" "initializationPromiseRef ?p"
    by (simp_all add: initFields_def)
  have t: "initFields (connectionSettles True ?p)
           = (True, True, Suc (initAttempts s), initObserved s @ map (\<lambda>w. (w, True)) ws, [], True)"
    using if_connectionSettles_pending [OF q, of True] p by (simp add: initFields_def)
  have f: "initFields (connectionSettles False ?p)
           = (False, False, Suc (initAttempts s), initObserved s @ map (\<lambda>w. (w, False)) ws, [],
              isConnected s)"
    using if_connectionSettles_pending [OF q, of False] p by (simp add: initFields_def)
  have e: "error (connectionSettles False ?p) \<noteq> None"
    by (rule error_connectionSettles_failure [OF q])
  have a: "isInitializedRef s' \<or> initializationPromiseRef s'
           \<longrightarrow> initAttempts (step lc e s') = initAttempts s'"
    by (simp add: attempts_step)
  from p t f e a show ?thesis
    by (simp add: initFields_def attempts_initializeIfNeeded)
qed

theorem C3_single_initialization_attempt_witness:
  "\<not> isInitializedRef (historyEffect (newSession (js ''Alex'') (js ''male'') True SpeechWorks))
   \<and> \<not> initializationPromiseRef (historyEffect (newSession (js ''Alex'') (js ''male'') True SpeechWorks))
   \<and> initAttempts (fold initializeIfNeeded
        [MountEffect, StartListeningCaller False, StartListeningCaller True]
        (historyEffect (newSession (js ''Alex'') (js ''male'') True SpeechWorks))) = 1
   \<and> initObserved (connectionSettles True (fold initializeIfNeeded
        [MountEffect, StartListeningCaller False, StartListeningCaller True]
        (historyEffect (newSession (js ''Alex'') (js ''male'') True SpeechWorks))))
     = [(MountEffect, True), (StartListeningCaller False, True), (StartListeningCaller True, True)]
   \<and> initObserved (connectionSettles False (fold initializeIfNeeded
        [MountEffect, StartListeningCaller False, StartListeningCaller True]
        (historyEffect (newSession (js ''Alex'') (js ''male'') True SpeechWorks))))
     = [(MountEffect, False), (StartListeningCaller False, False),
        (StartListeningCaller True, False)]
   \<and> initAttempts (initializeIfNeeded MountEffect (connectionSettles False (fold initializeIfNeeded
        [MountEffect, StartListeningCaller False, StartListeningCaller True]
        (historyEffect (newSession (js ''Alex'') (js ''male'') True SpeechWorks))))) = 2
   \<and> initializationPromiseRef exampleSession
   \<and> initAttempts (step exampleLower (StartListening False) exampleSession) = initAttempts exampleSession"
proof -
  let ?s = "historyEffect (newSession (js ''Alex'') (js ''male'') True SpeechWorks)"
  have h: "\<not> isInitializedRef ?s" "\<not> initializationPromiseRef ?s" "initWaiters ?s = []"
    "[MountEffect, StartListeningCaller False, StartListeningCaller True] \<noteq> []"
    by (simp_all add: historyEffect_def newSession_def)
  have i: "initAttempts ?s = 0" "initObserved ?s = []"
    by (simp_all add: historyEffect_def newSession_def)
  have x: "initializationPromiseRef exampleSession"
    by (simp add: exampleSession_def mountedSession_def initializeIfNeeded_def
        historyEffect_def newSession_def)
  from h x i C3_single_initialization_attempt [OF h, of MountEffect exampleSession exampleLower
      "StartListening False"]
  show ?thesis
    by simp
qed

subsection \<open>C4: a failing completion request\<close>

text \<open>
  Claim C4.  Let an utterance be accepted (non-blank, no turn in flight, not the duplicate
  key) and let its completion request fail.  Then the history has grown by the user
  message alone, the error \<^verbatim>\<open>Failed to get AI response\<close> is reported, the only
  notification is the user message, the guard is released and nothing is suspended or
  queued for speech; \<^verbatim>\<open>resumeListening\<close> has run exactly if the session was listening, so
  that a listening session with a started recorder is recording; and the session goes
  on: a following utterance with another normalized text is accepted.
\<close>

theorem C4_completion_failure_recoverable:
  assumes "trim m \<noteq> []" and "\<not> processingRef s" and "awaitingCompletion s = []"
    and "lastProcessedMessageRef s \<noteq> toLowerCase lc (trim m)"
  shows
    "(let s2 = completionSettles ApiThrows (processUserMessage lc c m s) in
        conversationHistory s2 = conversationHistory s @ [\<lparr>role = (js ''user''), content = trim m\<rparr>]
      \<and> length (conversationHistory s2) = Suc (length (conversationHistory s))
      \<and> error s2 = Some (js ''Failed to get AI response'')
      \<and> notifications s2
          = notifications s @ (if onUserMessage s then [OnUserMessage (trim m)] else [])
      \<and> \<not> processingRef s2 \<and> awaitingCompletion s2 = [] \<and> speechQueue s2 = speechQueue s
      \<and> isListeningRef s2 = isListeningRef s
      \<and> mediaRecorder s2
          = (if isListeningRef s \<and> mediaRecorder s = Some paused then Some recording
             else mediaRecorder s)
      \<and> (isListeningRef s \<and> (mediaRecorder s = Some recording \<or> mediaRecorder s = Some paused)
           \<longrightarrow> mediaRecorder s2 = Some recording)
      \<and> (trim m2 \<noteq> [] \<and> toLowerCase lc (trim m2) \<noteq> toLowerCase lc (trim m)
           \<longrightarrow> processingRef (processUserMessage lc c2 m2 s2)
             \<and> conversationHistory (processUserMessage lc c2 m2 s2)
               = conversationHistory s2 @ [\<lparr>role = (js ''user''), content = trim m2\<rparr>]))"
proof -
  let ?s2 = "completionSettles ApiThrows (processUserMessage lc c m s)"
  have g: "getResponse ApiThrows (conversationHistory s @ [\<lparr>role = (js ''user''), content = trim m\<rparr>])
             = Inl ServiceError
           \<or> getResponse ApiThrows (conversationHistory s @ [\<lparr>role = (js ''user''), content = trim m\<rparr>])
             = Inr []"
    by simp
  note f = silent_end [OF assms g, of c]
  note e = silent_end_error(1) [OF assms, of c]
  have later: "processingRef (processUserMessage lc c2 m2 ?s2)
        \<and> conversationHistory (processUserMessage lc c2 m2 ?s2)
          = conversationHistory ?s2 @ [\<lparr>role = (js ''user''), content = trim m2\<rparr>]"
    if "trim m2 \<noteq> []" and "toLowerCase lc (trim m2) \<noteq> toLowerCase lc (trim m)"
  proof -
    have "lastProcessedMessageRef ?s2 \<noteq> toLowerCase lc (trim m2)"
      using that(2) by (simp add: f(6))
    from processUserMessage_accepted [OF that(1) f(3) this, of c2] show ?thesis
      by simp
  qed
  from f e later show ?thesis
    by (simp add: Let_def)
qed

theorem C4_completion_failure_recoverable_witness:
  "trim (js ''hello'') \<noteq> [] \<and> \<not> processingRef listeningSession
   \<and> awaitingCompletion listeningSession = []
   \<and> lastProcessedMessageRef listeningSession \<noteq> toLowerCase exampleLower (trim (js ''hello''))
   \<and> conversationHistory (completionSettles ApiThrows
        (processUserMessage exampleLower False (js ''hello'') listeningSession))
     = conversationHistory listeningSession @ [\<lparr>role = (js ''user''), content = (js ''hello'')\<rparr>]
   \<and> error (completionSettles ApiThrows (processUserMessage exampleLower False (js ''hello'') listeningSession))
     = Some (js ''Failed to get AI response'')
   \<and> mediaRecorder (completionSettles ApiThrows
        (processUserMessage exampleLower False (js ''hello'') listeningSession)) = Some recording
   \<and> processingRef (processUserMessage exampleLower True (js ''bye'')
        (completionSettles ApiThrows (processUserMessage exampleLower False (js ''hello'') listeningSession)))"
proof -
  have h: "trim (js ''hello'') \<noteq> []" "\<not> processingRef listeningSession"
    "awaitingCompletion listeningSession = []"
    "lastProcessedMessageRef listeningSession \<noteq> toLowerCase exampleLower (trim (js ''hello''))"
    using listeningSession_fields(3)
    by (simp_all add: example_strings turnFields_def exampleSession_fields)
  from h C4_completion_failure_recoverable [OF h, of False "(js ''bye'')" True]
  show ?thesis
    by (simp add: Let_def example_strings listeningSession_fields)
qed

subsection \<open>C5: the mute flag\<close>

text \<open>
  What holds of claim C5, for the mute flag that the turn tests, which is the value
  \<open>c\<close> of \<^verbatim>\<open>isMuted\<close> captured by the instance of \<^verbatim>\<open>processUserMessage\<close> that was called.
  The voices of the speech platform are taken to be loaded, so that \<^verbatim>\<open>speak\<close> queues the
  utterance without waiting.
  For an accepted utterance with a non-empty reply \<open>r\<close>: \<^verbatim>\<open>onResponse\<close> is emitted whatever
  \<open>c\<close> is; with \<open>c\<close> set, the speech platform is not touched and the completion is
  emitted at once; with \<open>c\<close> clear and a working speech platform the reply is spoken, and
  \<^verbatim>\<open>muteAudio\<close> during the speech silences it, emits nothing itself, and the completion is
  emitted once, when the handler of the cancelled utterance runs, and not again.
\<close>

lemma mute_flag_as_captured:
  assumes "idle s" and "trim m \<noteq> []"
    and "lastProcessedMessageRef s \<noteq> toLowerCase lc (trim m)"
    and "getResponse api (conversationHistory s @ [\<lparr>role = (js ''user''), content = trim m\<rparr>])
         = Inr r"
    and "r \<noteq> []"
  shows "OnResponse r \<in> set (notifications (completionSettles api (processUserMessage lc c m s)))"
    and "speechQueue (completionSettles api (processUserMessage lc True m s)) = []"
    and "notifications (completionSettles api (processUserMessage lc True m s))
         = notifications s @ (if onUserMessage s then [OnUserMessage (trim m)] else [])
           @ [OnResponse r, OnSpeakingComplete]"
    and "\<not> processingRef (completionSettles api (processUserMessage lc True m s))"
    and "speechEnv s = SpeechWorks \<Longrightarrow>
         speechQueue (completionSettles api (processUserMessage lc False m s))
           = [\<lparr>uttText = r, uttOnComplete = TurnComplete, cancelled = False\<rparr>]
         \<and> isMuted (muteAudio (completionSettles api (processUserMessage lc False m s)))
         \<and> speechQueue (muteAudio (completionSettles api (processUserMessage lc False m s)))
           = [\<lparr>uttText = r, uttOnComplete = TurnComplete, cancelled = True\<rparr>]
         \<and> notifications (muteAudio (completionSettles api (processUserMessage lc False m s)))
           = notifications (completionSettles api (processUserMessage lc False m s))
         \<and> notifications (utteranceSettles
              (muteAudio (completionSettles api (processUserMessage lc False m s))))
           = notifications (completionSettles api (processUserMessage lc False m s))
             @ [OnSpeakingComplete]
         \<and> \<not> processingRef (utteranceSettles
              (muteAudio (completionSettles api (processUserMessage lc False m s))))
         \<and> utteranceSettles (utteranceSettles
              (muteAudio (completionSettles api (processUserMessage lc False m s))))
           = utteranceSettles (muteAudio (completionSettles api (processUserMessage lc False m s)))"
proof -
  from assms(1) have i: "\<not> processingRef s" "awaitingCompletion s = []" "speechQueue s = []"
    by (simp_all add: idle_def)
  note f = reply_fields [OF assms(2) i(1) i(2) assms(3) assms(4) assms(5)]
  show "OnResponse r \<in> set (notifications (completionSettles api (processUserMessage lc c m s)))"
    by (simp add: f(2))
  show "speechQueue (completionSettles api (processUserMessage lc True m s)) = []"
    by (simp add: f(4) i(3))
  show "notifications (completionSettles api (processUserMessage lc True m s))
         = notifications s @ (if onUserMessage s then [OnUserMessage (trim m)] else [])
           @ [OnResponse r, OnSpeakingComplete]"
    by (simp add: f(2))
  show "\<not> processingRef (completionSettles api (processUserMessage lc True m s))"
    by (simp add: f(3))
  assume w: "speechEnv s = SpeechWorks"
  let ?s2 = "completionSettles api (processUserMessage lc False m s)"
  have q: "speechQueue ?s2 = [\<lparr>uttText = r, uttOnComplete = TurnComplete, cancelled = False\<rparr>]"
    using w by (simp add: f(4) i(3) cancelSpeech_def)
  have e: "speechEnv ?s2 = SpeechWorks"
    using w
    by (simp add: completionSettles_accepted [OF assms(2) i(1) i(2) assms(3)] assms(4) assms(5)
        afterCompletion_def Let_def speak_def finallyResume_def resumeListening_def)
  have u: "muteAudio ?s2
           = ?s2\<lparr>isMuted := True,
                 speechQueue := [\<lparr>uttText = r, uttOnComplete = TurnComplete, cancelled = True\<rparr>]\<rparr>"
    using q e by (simp add: muteAudio_def elevenlabsCleanup_def cancelSpeech_def)
  show "speechQueue ?s2 = [\<lparr>uttText = r, uttOnComplete = TurnComplete, cancelled = False\<rparr>]
         \<and> isMuted (muteAudio ?s2)
         \<and> speechQueue (muteAudio ?s2)
           = [\<lparr>uttText = r, uttOnComplete = TurnComplete, cancelled = True\<rparr>]
         \<and> notifications (muteAudio ?s2) = notifications ?s2
         \<and> notifications (utteranceSettles (muteAudio ?s2))
           = notifications ?s2 @ [OnSpeakingComplete]
         \<and> \<not> processingRef (utteranceSettles (muteAudio ?s2))
         \<and> utteranceSettles (utteranceSettles (muteAudio ?s2)) = utteranceSettles (muteAudio ?s2)"
    using q by (simp add: u utteranceSettles_def)
qed

text \<open>
  Claim C5 says that a muted turn skips the speech output.  The flag that
  \<^verbatim>\<open>processUserMessage\<close> tests is not the mute flag of the session but the value captured by
  the instance of the callback that runs: the instance that \<^verbatim>\<open>startListening\<close> handed to
  \<^verbatim>\<open>DeepgramService.startListening\<close>, which keeps it until \<^verbatim>\<open>startListening\<close> is called
  again, or an instance already suspended at the completion request.  In the listening
  example session, \<^verbatim>\<open>muteAudio\<close> followed by a finalized utterance and a reply ends with
  the mute flag set, the reply handed to the speech platform and being spoken, and no
  completion emitted yet.  The same happens when \<^verbatim>\<open>muteAudio\<close> comes between the call and
  the reply.
\<close>

theorem C5_muted_session_still_speaks:
  "(let s1 = run lc [MuteAudio, TranscriptEvent (js ''hello'') True, UtteranceEndEvent,
                  CompletionSettles (ApiCompletion [Some (js ''Hi!'')])] listeningSession in
      isMuted s1 \<and> processingRef s1
      \<and> speechQueue s1 = [\<lparr>uttText = (js ''Hi!''), uttOnComplete = TurnComplete, cancelled = False\<rparr>]
      \<and> notifications s1 = [OnTranscript (js ''hello''), OnUserMessage (js ''hello''), OnResponse (js ''Hi!'')])
   \<and> (let s2 = run lc [ProcessUserMessage (isMuted exampleSession) (js ''hello''), MuteAudio,
                    CompletionSettles (ApiCompletion [Some (js ''Hi!'')])] exampleSession in
      isMuted s2 \<and> processingRef s2
      \<and> speechQueue s2 = [\<lparr>uttText = (js ''Hi!''), uttOnComplete = TurnComplete, cancelled = False\<rparr>]
      \<and> notifications s2 = [OnUserMessage (js ''hello''), OnResponse (js ''Hi!'')])"
  by (simp add: Let_def listeningSession_def exampleSession_def mountedSession_def
      initializeIfNeeded_def historyEffect_def newSession_def connectionSettles_def
      startListening_def startListeningAfterInit_def deepgramStartListening_def
      userMediaSettles_def deepgramStartRecorder_def muteAudio_def elevenlabsCleanup_def
      cancelSpeech_def transcriptEvent_def transcriptListener_def utteranceEndEvent_def
      processUserMessage_def completionSettles_def afterCompletion_def appendAssistant_def
      speak_def finallyResume_def resumeListening_def example_strings)

subsection \<open>C6: capture around a turn\<close>

text \<open>
  Claim C6 says that capture is suspended while a turn is in flight and resumed after it.
  The code does not suspend capture: \<^verbatim>\<open>processUserMessage\<close> leaves the recorder as it
  is, \<^verbatim>\<open>DeepgramService.pauseListening\<close> is called from nowhere, and in no state that a
  mounted session reaches is the recorder paused, so that the \<^verbatim>\<open>resumeListening\<close> of the
  \<^verbatim>\<open>finally\<close> block never finds anything to resume.  In the listening example session
  the recorder is still recording after an utterance has been accepted and while its
  turn is in flight.
\<close>

theorem C6_capture_not_suspended:
  "mediaRecorder (processUserMessage lc c m s) = mediaRecorder s
   \<and> mediaRecorder (run lc evs (mountedSession n g cb env)) \<noteq> Some paused
   \<and> isListeningRef listeningSession
   \<and> mediaRecorder listeningSession = Some recording
   \<and> processingRef (processUserMessage lc False (js ''hello'') listeningSession)
   \<and> mediaRecorder (processUserMessage lc False (js ''hello'') listeningSession) = Some recording"
proof -
  have "mediaRecorder (run lc evs (mountedSession n g cb env)) \<noteq> Some paused"
    by (rule notPaused_run) (simp add: recorder_mountedSession)
  moreover have "processingRef (processUserMessage lc False (js ''hello'') listeningSession)"
    using listeningSession_fields(3)
    by (simp add: processUserMessage_def example_strings turnFields_def exampleSession_fields)
  ultimately show ?thesis
    by (simp add: recorder_processUserMessage listeningSession_fields)
qed

subsection \<open>C7: the history starts with the system message and only grows\<close>

text \<open>
  Claim C7.  Under any sequence of events the history of a session only grows at its end:
  the history before is a prefix of the history after, so no entry is reordered,
  rewritten or dropped.  In a mounted session the first entry is, and stays, the system
  message built from the user's name and gender, and every later entry has the role user
  or assistant, so the system message is written once.
\<close>

theorem C7_history_append_only:
  "prefix (conversationHistory s) (conversationHistory (run lc evs s))
   \<and> historyInv n g (conversationHistory (run lc evs (mountedSession n g cb env)))"
proof
  show "prefix (conversationHistory s) (conversationHistory (run lc evs s))"
    by (rule prefix_run)
  have "historyInv n g (conversationHistory (mountedSession n g cb env))"
    by (simp add: history_mountedSession historyInv_def)
  then show "historyInv n g (conversationHistory (run lc evs (mountedSession n g cb env)))"
    by (rule historyInv_run)
qed

subsection \<open>C8: a turn with a reply\<close>

text \<open>
  Claim C8.  From a session with no turn in flight, let an utterance be accepted and let
  the completion request return a non-empty reply.  When the turn is over (the
  utterance, if one was spoken, has ended), the history has grown by exactly two
  entries, the user message and then the assistant message, and the notifications of the
  turn are, in this order, the user message (when the optional callback is supplied),
  the response and the completion; no turn is in flight any more.  The reply need not
  be compared with an earlier assistant entry: the entry before it is the user message.
\<close>

theorem C8_turn_with_reply:
  assumes "idle s" and "trim m \<noteq> []"
    and "lastProcessedMessageRef s \<noteq> toLowerCase lc (trim m)"
    and "getResponse api (conversationHistory s @ [\<lparr>role = (js ''user''), content = trim m\<rparr>])
         = Inr r"
    and "r \<noteq> []"
  shows "conversationHistory (run lc (turn c m api) s)
           = conversationHistory s
             @ [\<lparr>role = (js ''user''), content = trim m\<rparr>, \<lparr>role = (js ''assistant''), content = r\<rparr>]
       \<and> length (conversationHistory (run lc (turn c m api) s))
           = Suc (Suc (length (conversationHistory s)))
       \<and> notifications (run lc (turn c m api) s)
           = notifications s @ (if onUserMessage s then [OnUserMessage (trim m)] else [])
             @ [OnResponse r, OnSpeakingComplete]
       \<and> idle (run lc (turn c m api) s)"
  using turn_reply [OF assms, of c] turn_accepted(1) [OF assms(1-3), of c api]
  by simp

theorem C8_turn_with_reply_witness:
  "idle exampleSession \<and> trim (js ''hello there'') \<noteq> []
   \<and> lastProcessedMessageRef exampleSession \<noteq> toLowerCase exampleLower (trim (js ''hello there''))
   \<and> getResponse (ApiCompletion [Some (js ''Hi! How is your day going?'')])
        (conversationHistory exampleSession
         @ [\<lparr>role = (js ''user''), content = trim (js ''hello there'')\<rparr>])
      = Inr (js ''Hi! How is your day going?'')
   \<and> conversationHistory
        (run exampleLower (turn False (js ''hello there'') (ApiCompletion [Some (js ''Hi! How is your day going?'')]))
           exampleSession)
     = conversationHistory exampleSession
       @ [\<lparr>role = (js ''user''), content = (js ''hello there'')\<rparr>,
          \<lparr>role = (js ''assistant''), content = (js ''Hi! How is your day going?'')\<rparr>]
   \<and> notifications
        (run exampleLower (turn False (js ''hello there'') (ApiCompletion [Some (js ''Hi! How is your day going?'')]))
           exampleSession)
     = [OnUserMessage (js ''hello there''), OnResponse (js ''Hi! How is your day going?''),
        OnSpeakingComplete]"
proof -
  have t: "trim (js ''hello there'') = (js ''hello there'')"
    by (simp add: trim_def isWhiteSpace_def js_def)
  have l: "toLowerCase exampleLower (js ''hello there'') \<noteq> []"
    by (simp add: toLowerCase_def isAscii_def toLowerAscii_def js_def)
  have h: "idle exampleSession" "trim (js ''hello there'') \<noteq> []"
    "lastProcessedMessageRef exampleSession \<noteq> toLowerCase exampleLower (trim (js ''hello there''))"
    "getResponse (ApiCompletion [Some (js ''Hi! How is your day going?'')])
        (conversationHistory exampleSession
         @ [\<lparr>role = (js ''user''), content = trim (js ''hello there'')\<rparr>])
      = Inr (js ''Hi! How is your day going?'')"
    "(js ''Hi! How is your day going?'') \<noteq> []"
    using l by (simp_all add: t exampleSession_idle exampleSession_fields)
  have n: "notifications exampleSession = []" "onUserMessage exampleSession"
    by (simp_all add: exampleSession_def mountedSession_def initializeIfNeeded_def
        historyEffect_def newSession_def)
  from h n C8_turn_with_reply [OF h, of False]
  show ?thesis
    by (simp add: t)
qed

subsection \<open>C9: an empty reply\<close>

text \<open>
  Claim C9.  Let an utterance be accepted and let the completion request succeed with an
  empty reply (no choice, a null content or the empty string).  Then the history has
  grown by the user message alone, no \<^verbatim>\<open>onResponse\<close> and no \<^verbatim>\<open>onSpeakingComplete\<close> is
  emitted, nothing is handed to the speech platform and no error is reported; the guard
  is released, \<^verbatim>\<open>resumeListening\<close> has run exactly if the session was listening, and a
  following utterance with another normalized text is accepted.
\<close>

theorem C9_empty_reply_ends_silently:
  assumes "trim m \<noteq> []" and "\<not> processingRef s" and "awaitingCompletion s = []"
    and "lastProcessedMessageRef s \<noteq> toLowerCase lc (trim m)"
    and "getResponse api (conversationHistory s @ [\<lparr>role = (js ''user''), content = trim m\<rparr>]) = Inr []"
  shows
    "(let s2 = completionSettles api (processUserMessage lc c m s) in
        conversationHistory s2 = conversationHistory s @ [\<lparr>role = (js ''user''), content = trim m\<rparr>]
      \<and> length (conversationHistory s2) = Suc (length (conversationHistory s))
      \<and> notifications s2
          = notifications s @ (if onUserMessage s then [OnUserMessage (trim m)] else [])
      \<and> speechQueue s2 = speechQueue s \<and> error s2 = error s
      \<and> \<not> processingRef s2 \<and> awaitingCompletion s2 = []
      \<and> isListeningRef s2 = isListeningRef s
      \<and> mediaRecorder s2
          = (if isListeningRef s \<and> mediaRecorder s = Some paused then Some recording
             else mediaRecorder s)
      \<and> (isListeningRef s \<and> (mediaRecorder s = Some recording \<or> mediaRecorder s = Some paused)
           \<longrightarrow> mediaRecorder s2 = Some recording)
      \<and> (trim m2 \<noteq> [] \<and> toLowerCase lc (trim m2) \<noteq> toLowerCase lc (trim m)
           \<longrightarrow> processingRef (processUserMessage lc c2 m2 s2)
             \<and> conversationHistory (processUserMessage lc c2 m2 s2)
               = conversationHistory s2 @ [\<lparr>role = (js ''user''), content = trim m2\<rparr>]))"
proof -
  let ?s2 = "completionSettles api (processUserMessage lc c m s)"
  have g: "getResponse api (conversationHistory s @ [\<lparr>role = (js ''user''), content = trim m\<rparr>])
             = Inl ServiceError
           \<or> getResponse api (conversationHistory s @ [\<lparr>role = (js ''user''), content = trim m\<rparr>])
             = Inr []"
    using assms(5) by simp
  note f = silent_end [OF assms(1-4) g, of c]
  note e = silent_end_error(2) [OF assms(1-4) assms(5), of c]
  have later: "processingRef (processUserMessage lc c2 m2 ?s2)
        \<and> conversationHistory (processUserMessage lc c2 m2 ?s2)
          = conversationHistory ?s2 @ [\<lparr>role = (js ''user''), content = trim m2\<rparr>]"
    if "trim m2 \<noteq> []" and "toLowerCase lc (trim m2) \<noteq> toLowerCase lc (trim m)"
  proof -
    have "lastProcessedMessageRef ?s2 \<noteq> toLowerCase lc (trim m2)"
      using that(2) by (simp add: f(6))
    from processUserMessage_accepted [OF that(1) f(3) this, of c2] show ?thesis
      by simp
  qed
  from f e later show ?thesis
    by (simp add: Let_def)
qed

theorem C9_empty_reply_ends_silently_witness:
  "trim (js ''hello'') \<noteq> [] \<and> \<not> processingRef listeningSession
   \<and> awaitingCompletion listeningSession = []
   \<and> lastProcessedMessageRef listeningSession \<noteq> toLowerCase exampleLower (trim (js ''hello''))
   \<and> getResponse (ApiCompletion [None])
        (conversationHistory listeningSession @ [\<lparr>role = (js ''user''), content = trim (js ''hello'')\<rparr>])
      = Inr []
   \<and> conversationHistory (completionSettles (ApiCompletion [None])
        (processUserMessage exampleLower False (js ''hello'') listeningSession))
     = conversationHistory listeningSession @ [\<lparr>role = (js ''user''), content = (js ''hello'')\<rparr>]
   \<and> notifications (completionSettles (ApiCompletion [None])
        (processUserMessage exampleLower False (js ''hello'') listeningSession))
     = notifications listeningSession @ [OnUserMessage (js ''hello'')]
   \<and> speechQueue (completionSettles (ApiCompletion [None])
        (processUserMessage exampleLower False (js ''hello'') listeningSession)) = []
   \<and> mediaRecorder (completionSettles (ApiCompletion [None])
        (processUserMessage exampleLower False (js ''hello'') listeningSession)) = Some recording
   \<and> processingRef (processUserMessage exampleLower True (js ''bye'')
        (completionSettles (ApiCompletion [None])
           (processUserMessage exampleLower False (js ''hello'') listeningSession)))"
proof -
  have h: "trim (js ''hello'') \<noteq> []" "\<not> processingRef listeningSession"
    "awaitingCompletion listeningSession = []"
    "lastProcessedMessageRef listeningSession \<noteq> toLowerCase exampleLower (trim (js ''hello''))"
    "getResponse (ApiCompletion [None])
        (conversationHistory listeningSession @ [\<lparr>role = (js ''user''), content = trim (js ''hello'')\<rparr>])
      = Inr []"
    using listeningSession_fields(3)
    by (simp_all add: example_strings turnFields_def exampleSession_fields)
  have u: "onUserMessage listeningSession" "speechQueue listeningSession = []"
    using listeningSession_fields(3)
    by (simp_all add: listeningSession_onUserMessage turnFields_def exampleSession_fields)
  from h u C9_empty_reply_ends_silently [OF h, of False "(js ''bye'')" True]
  show ?thesis
    by (simp add: Let_def example_strings listeningSession_fields)
qed

subsection \<open>C10: the duplicate key outlives a failed turn\<close>

text \<open>
  Claim C10.  From a session with no turn in flight, let an utterance \<open>m\<close> be accepted
  and let its completion request fail.  The guard is released, but the duplicate key is
  still the normalized text of \<open>m\<close>: an utterance with the same normalized text that
  follows at once changes nothing, so repeating the utterance does not retry it.  Once
  an utterance with another normalized text has been accepted and its turn is over,
  \<open>m\<close> is accepted again.
\<close>

theorem C10_duplicate_key_survives_failure:
  assumes "idle s" and "trim m \<noteq> []"
    and "lastProcessedMessageRef s \<noteq> toLowerCase lc (trim m)"
  shows
    "(let s2 = completionSettles ApiThrows (processUserMessage lc c m s) in
        \<not> processingRef s2
      \<and> lastProcessedMessageRef s2 = toLowerCase lc (trim m)
      \<and> (toLowerCase lc (trim m') = toLowerCase lc (trim m) \<longrightarrow> processUserMessage lc c' m' s2 = s2)
      \<and> (trim b \<noteq> [] \<and> toLowerCase lc (trim b) \<noteq> toLowerCase lc (trim m)
           \<longrightarrow> processingRef (processUserMessage lc c3 m (run lc (turn c2 b api2) s2))
             \<and> conversationHistory (processUserMessage lc c3 m (run lc (turn c2 b api2) s2))
               = conversationHistory (run lc (turn c2 b api2) s2)
                 @ [\<lparr>role = (js ''user''), content = trim m\<rparr>]))"
proof -
  from assms(1) have i: "\<not> processingRef s" "awaitingCompletion s = []" "speechQueue s = []"
    by (simp_all add: idle_def)
  let ?s2 = "completionSettles ApiThrows (processUserMessage lc c m s)"
  have g: "getResponse ApiThrows (conversationHistory s @ [\<lparr>role = (js ''user''), content = trim m\<rparr>])
             = Inl ServiceError
           \<or> getResponse ApiThrows (conversationHistory s @ [\<lparr>role = (js ''user''), content = trim m\<rparr>])
             = Inr []"
    by simp
  note f = silent_end [OF assms(2) i(1) i(2) assms(3) g, of c]
  have dup: "processUserMessage lc c' m' ?s2 = ?s2"
    if "toLowerCase lc (trim m') = toLowerCase lc (trim m)"
    by (rule processUserMessage_rejected) (simp add: f(6) that)
  have again: "processingRef (processUserMessage lc c3 m (run lc (turn c2 b api2) ?s2))
        \<and> conversationHistory (processUserMessage lc c3 m (run lc (turn c2 b api2) ?s2))
          = conversationHistory (run lc (turn c2 b api2) ?s2) @ [\<lparr>role = (js ''user''), content = trim m\<rparr>]"
    if "trim b \<noteq> []" and "toLowerCase lc (trim b) \<noteq> toLowerCase lc (trim m)"
  proof -
    have d: "idle ?s2"
      using f(3) f(4) f(5) i(3) by (simp add: idle_def)
    have k: "lastProcessedMessageRef ?s2 \<noteq> toLowerCase lc (trim b)"
      using that(2) by (simp add: f(6))
    note t = turn_accepted [OF d that(1) k, of c2 api2]
    from t(1) have p: "\<not> processingRef (run lc (turn c2 b api2) ?s2)"
      by (simp add: idle_def)
    have q: "lastProcessedMessageRef (run lc (turn c2 b api2) ?s2) \<noteq> toLowerCase lc (trim m)"
      using that(2) by (simp add: t(2))
    from processUserMessage_accepted [OF assms(2) p q, of c3] show ?thesis
      by simp
  qed
  from f(3) f(6) dup again show ?thesis
    by (simp add: Let_def)
qed

theorem C10_duplicate_key_survives_failure_witness:
  "idle exampleSession \<and> trim (js ''hello'') \<noteq> []
   \<and> lastProcessedMessageRef exampleSession \<noteq> toLowerCase exampleLower (trim (js ''hello''))
   \<and> \<not> processingRef (completionSettles ApiThrows (processUserMessage exampleLower False (js ''hello'') exampleSession))
   \<and> toLowerCase exampleLower (trim (js ''  Hello '')) = toLowerCase exampleLower (trim (js ''hello''))
   \<and> processUserMessage exampleLower False (js ''  Hello '')
        (completionSettles ApiThrows (processUserMessage exampleLower False (js ''hello'') exampleSession))
     = completionSettles ApiThrows (processUserMessage exampleLower False (js ''hello'') exampleSession)
   \<and> trim (js ''bye'') \<noteq> [] \<and> toLowerCase exampleLower (trim (js ''bye'')) \<noteq> toLowerCase exampleLower (trim (js ''hello''))
   \<and> processingRef (processUserMessage exampleLower False (js ''hello'')
        (run exampleLower (turn False (js ''bye'') (ApiCompletion [Some (js ''Bye!'')]))
           (completionSettles ApiThrows (processUserMessage exampleLower False (js ''hello'') exampleSession))))"
proof -
  have h: "idle exampleSession" "trim (js ''hello'') \<noteq> []"
    "lastProcessedMessageRef exampleSession \<noteq> toLowerCase exampleLower (trim (js ''hello''))"
    by (simp_all add: exampleSession_idle exampleSession_fields example_strings)
  have k: "toLowerCase exampleLower (trim (js ''  Hello '')) = toLowerCase exampleLower (trim (js ''hello''))"
    "trim (js ''bye'') \<noteq> []" "toLowerCase exampleLower (trim (js ''bye'')) \<noteq> toLowerCase exampleLower (trim (js ''hello''))"
    by (simp_all add: example_strings)
  from h k C10_duplicate_key_survives_failure [OF h, of False "(js ''  Hello '')" False "(js ''bye'')"
      False False "ApiCompletion [Some (js ''Bye!'')]"]
  show ?thesis
    by (simp add: Let_def)
qed

end
